theory Spec2Isabelle
  imports
    Main
    "HOL-Library.Sublist"
    "HOL-Library.AList"
    "HOL-Library.Char_ord"
    "HOL-Library.List_Lexorder"
begin

section \<open>Strings\<close>

text \<open>
  A JavaScript string is modelled as a \<^typ>\<open>string\<close>: the list of the bytes of its UTF-8
  text. Every delimiter the worker looks for (\<open>/\<close>, \<open>.\<close>, a blank, the parentheses of a
  route pattern) is an ASCII character, so splitting and prefix tests agree on bytes and on
  UTF-16 code units.
\<close>

text \<open>\<^verbatim>\<open>s.split(d)\<close> for a one-character separator: never the empty array.\<close>

fun split_on :: "char \<Rightarrow> string \<Rightarrow> string list" where
  "split_on d [] = [[]]"
| "split_on d (c # cs) =
     (if c = d then [] # split_on d cs
      else (case split_on d cs of
              [] \<Rightarrow> [[c]]
            | x # xs \<Rightarrow> (c # x) # xs))"

text \<open>\<^verbatim>\<open>xs.pop()\<close> on the array a split returns; \<open>None\<close> is \<open>undefined\<close>.\<close>

definition pop :: "'a list \<Rightarrow> 'a option" where
  "pop xs = (if xs = [] then None else Some (last xs))"

section \<open>The route patterns as regular expressions\<close>

text \<open>
  \<^verbatim>\<open>routePath.replace(/\(.+\)/g, '([^/]+)')\<close>. The pattern \<^verbatim>\<open>\(.+\)\<close> is an opening
  parenthesis, one or more characters other than a line terminator, taken greedily, and a
  closing parenthesis. \<open>dot_plus_close cs\<close> is the number of characters after the opening
  parenthesis that the match covers: up to and including the last closing parenthesis
  that stands on the same line with at least one character before it.
\<close>

definition line_terminator :: "char \<Rightarrow> bool" where
  "line_terminator c = (c = CHR 0x0A \<or> c = CHR 0x0D)"

definition dot_plus_close :: "string \<Rightarrow> nat option" where
  "dot_plus_close cs =
     (let run = takeWhile (\<lambda>c. \<not> line_terminator c) cs;
          hits = filter (\<lambda>j. run ! j = CHR '')'') [1 ..< length run]
      in if hits = [] then None else Some (Suc (last hits)))"

function replace_groups :: "string \<Rightarrow> string" where
  "replace_groups [] = []"
| "replace_groups (c # cs) =
     (if c = CHR ''(''
      then (case dot_plus_close cs of
              None \<Rightarrow> c # replace_groups cs
            | Some n \<Rightarrow> ''([^/]+)'' @ replace_groups (drop n cs))
      else c # replace_groups cs)"
  by pat_completeness auto
termination
  by (relation "measure length") auto

text \<open>
  The regular expressions the router builds are \<^verbatim>\<open>^\<close>, literal characters, the group
  \<^verbatim>\<open>([^/]+)\<close> and \<^verbatim>\<open>$\<close>. \<open>compile_regex\<close> reads exactly that fragment of the
  syntax of \<^verbatim>\<open>new RegExp\<close>; any other use of a metacharacter is \<open>None\<close> (for an
  unbalanced parenthesis the constructor throws a SyntaxError).
\<close>

datatype rx = Bol | Eol | Lit char | Seg

definition metachar :: "char \<Rightarrow> bool" where
  "metachar c = (c = CHR 0x5C \<or> c \<in> set ''^$.|?*+()[]{}'')"

function compile_regex :: "string \<Rightarrow> rx list option" where
  "compile_regex [] = Some []"
| "compile_regex (c # cs) =
     (if c = CHR ''^'' then map_option (Cons Bol) (compile_regex cs)
      else if c = CHR ''$'' then map_option (Cons Eol) (compile_regex cs)
      else if prefix ''([^/]+)'' (c # cs)
        then map_option (Cons Seg) (compile_regex (drop 6 cs))
      else if metachar c then None
      else map_option (Cons (Lit c)) (compile_regex cs))"
  by pat_completeness auto
termination
  by (relation "measure length") auto

text \<open>
  Matching by backtracking, as the engine does it. \<open>rx_run ts at_start s\<close> matches the
  tokens at the head of \<open>s\<close> and returns the captures in order. A group tries its longest
  run of characters other than \<open>/\<close> first. The flags are empty, so \<^verbatim>\<open>^\<close> and \<^verbatim>\<open>$\<close>
  match only at the two ends of the input.
\<close>

fun first_some :: "'a option list \<Rightarrow> 'a option" where
  "first_some [] = None"
| "first_some (None # xs) = first_some xs"
| "first_some (Some x # xs) = Some x"

fun rx_run :: "rx list \<Rightarrow> bool \<Rightarrow> string \<Rightarrow> string list option" where
  "rx_run [] at_start s = Some []"
| "rx_run (Bol # ts) at_start s = (if at_start then rx_run ts at_start s else None)"
| "rx_run (Eol # ts) at_start s = (if s = [] then rx_run ts at_start s else None)"
| "rx_run (Lit c # ts) at_start s =
     (case s of
        [] \<Rightarrow> None
      | d # ds \<Rightarrow> if c = d then rx_run ts False ds else None)"
| "rx_run (Seg # ts) at_start s =
     first_some
       (map (\<lambda>n. map_option (Cons (take n s)) (rx_run ts False (drop n s)))
            (rev [1 ..< Suc (length (takeWhile (\<lambda>c. c \<noteq> CHR ''/'') s))]))"

text \<open>\<^verbatim>\<open>path.match(regex).slice(1)\<close>: the leftmost match, searched from every position.\<close>

fun rx_search :: "rx list \<Rightarrow> bool \<Rightarrow> string \<Rightarrow> string list option" where
  "rx_search ts at_start [] = rx_run ts at_start []"
| "rx_search ts at_start (c # cs) =
     (case rx_run ts at_start (c # cs) of
        Some caps \<Rightarrow> Some caps
      | None \<Rightarrow> rx_search ts False cs)"

definition path_match :: "rx list \<Rightarrow> string \<Rightarrow> string list option" where
  "path_match ts path = rx_search ts True path"

section \<open>JSON values and their text\<close>

text \<open>
  The values \<^verbatim>\<open>JSON.parse\<close> returns and \<^verbatim>\<open>JSON.stringify\<close> prints. Numbers are
  the integers, printed in decimal notation (a double and its exponent notation are not
  modelled). The fields of an object are kept in the order of insertion, which is the
  order \<^verbatim>\<open>JSON.stringify\<close> prints them in when no key is an array index. A value of
  JavaScript that may be \<^verbatim>\<open>undefined\<close> is a \<^typ>\<open>'a option\<close>, \<open>None\<close> for
  \<^verbatim>\<open>undefined\<close>.
\<close>

datatype json =
    JNull
  | JBool bool
  | JNum int
  | JStr string
  | JArr "json list"
  | JObj "(string \<times> json) list"

subsection \<open>Printing\<close>

definition digit_char :: "nat \<Rightarrow> char" where
  "digit_char d = char_of (48 + d)"

function digits_of :: "nat \<Rightarrow> string" where
  "digits_of n = (if n < 10 then [digit_char n] else digits_of (n div 10) @ [digit_char (n mod 10)])"
  by pat_completeness auto
termination
  by (relation "measure id") auto

definition show_int :: "int \<Rightarrow> string" where
  "show_int i = (if i < 0 then CHR ''-'' # digits_of (nat (- i)) else digits_of (nat i))"

definition hex_char :: "nat \<Rightarrow> char" where
  "hex_char d = ''0123456789abcdef'' ! d"

text \<open>The quoting of \<^verbatim>\<open>JSON.stringify\<close>: two-character escapes, \<^verbatim>\<open>\u00xx\<close> for the
  other control characters, every other byte as it is.\<close>

definition escape_char :: "char \<Rightarrow> string" where
  "escape_char c =
     (if c = CHR 0x22 then [CHR 0x5C, CHR 0x22]
      else if c = CHR 0x5C then [CHR 0x5C, CHR 0x5C]
      else if c = CHR 0x08 then [CHR 0x5C, CHR ''b'']
      else if c = CHR 0x0C then [CHR 0x5C, CHR ''f'']
      else if c = CHR 0x0A then [CHR 0x5C, CHR ''n'']
      else if c = CHR 0x0D then [CHR 0x5C, CHR ''r'']
      else if c = CHR 0x09 then [CHR 0x5C, CHR ''t'']
      else if (of_char c :: nat) < 32
        then [CHR 0x5C, CHR ''u'', CHR ''0'', CHR ''0'',
              hex_char ((of_char c :: nat) div 16), hex_char ((of_char c :: nat) mod 16)]
      else [c])"

definition quote :: "string \<Rightarrow> string" where
  "quote s = CHR 0x22 # concat (map escape_char s) @ [CHR 0x22]"

fun join_commas :: "string list \<Rightarrow> string" where
  "join_commas [] = []"
| "join_commas [x] = x"
| "join_commas (x # y # ys) = x @ CHR '','' # join_commas (y # ys)"

fun JSON_stringify :: "json \<Rightarrow> string" where
  "JSON_stringify JNull = ''null''"
| "JSON_stringify (JBool b) = (if b then ''true'' else ''false'')"
| "JSON_stringify (JNum i) = show_int i"
| "JSON_stringify (JStr s) = quote s"
| "JSON_stringify (JArr vs) = CHR ''['' # join_commas (map JSON_stringify vs) @ '']''"
| "JSON_stringify (JObj fs) =
     CHR ''{'' # join_commas (map (\<lambda>kv. quote (fst kv) @ CHR '':'' # JSON_stringify (snd kv)) fs)
       @ ''}''"

subsection \<open>Parsing\<close>

text \<open>
  \<^verbatim>\<open>JSON.parse\<close> by recursive descent, \<open>None\<close> where it throws a SyntaxError. The
  grammar is that of JSON with its insignificant white space; outside the model, and
  refused too, are a number with a fraction or an exponent and an escaped surrogate.
  The recursion is on a counter that the length of the text bounds.
\<close>

definition is_ws :: "char \<Rightarrow> bool" where
  "is_ws c = (c = CHR 0x20 \<or> c = CHR 0x09 \<or> c = CHR 0x0A \<or> c = CHR 0x0D)"

definition skip_ws :: "string \<Rightarrow> string" where
  "skip_ws s = dropWhile is_ws s"

definition is_digit :: "char \<Rightarrow> bool" where
  "is_digit c = (48 \<le> (of_char c :: nat) \<and> (of_char c :: nat) \<le> 57)"

definition nat_of_digits :: "string \<Rightarrow> nat" where
  "nat_of_digits ds = foldl (\<lambda>a c. 10 * a + ((of_char c :: nat) - 48)) 0 ds"

definition parse_number :: "string \<Rightarrow> (json \<times> string) option" where
  "parse_number s =
     (let neg = (s \<noteq> [] \<and> hd s = CHR ''-'');
          s1 = (if neg then tl s else s);
          ds = takeWhile is_digit s1;
          r = dropWhile is_digit s1
      in if ds = [] then None
         else if hd ds = CHR ''0'' \<and> 1 < length ds then None
         else if r \<noteq> [] \<and> hd r \<in> set ''.eE'' then None
         else Some (JNum (if neg then - int (nat_of_digits ds) else int (nat_of_digits ds)), r))"

definition hex_val :: "char \<Rightarrow> nat option" where
  "hex_val c =
     (let n = (of_char c :: nat)
      in if 48 \<le> n \<and> n \<le> 57 then Some (n - 48)
         else if 97 \<le> n \<and> n \<le> 102 then Some (n - 87)
         else if 65 \<le> n \<and> n \<le> 70 then Some (n - 55)
         else None)"

fun hex4 :: "string \<Rightarrow> nat option" where
  "hex4 [a, b, c, d] =
     (case (hex_val a, hex_val b, hex_val c, hex_val d) of
        (Some w, Some x, Some y, Some z) \<Rightarrow> Some (((w * 16 + x) * 16 + y) * 16 + z)
      | _ \<Rightarrow> None)"
| "hex4 _ = None"

text \<open>The UTF-8 bytes of a code point of the basic plane; a surrogate has none.\<close>

definition utf8 :: "nat \<Rightarrow> string option" where
  "utf8 cp =
     (if cp < 128 then Some [char_of cp]
      else if cp < 2048 then Some [char_of (192 + cp div 64), char_of (128 + cp mod 64)]
      else if 55296 \<le> cp \<and> cp < 57344 then None
      else Some [char_of (224 + cp div 4096), char_of (128 + (cp div 64) mod 64),
                 char_of (128 + cp mod 64)])"

definition unescape :: "char \<Rightarrow> char option" where
  "unescape e =
     (if e = CHR 0x22 then Some (CHR 0x22)
      else if e = CHR 0x5C then Some (CHR 0x5C)
      else if e = CHR ''/'' then Some (CHR ''/'')
      else if e = CHR ''b'' then Some (CHR 0x08)
      else if e = CHR ''f'' then Some (CHR 0x0C)
      else if e = CHR ''n'' then Some (CHR 0x0A)
      else if e = CHR ''r'' then Some (CHR 0x0D)
      else if e = CHR ''t'' then Some (CHR 0x09)
      else None)"

text \<open>The characters of a string literal after its opening quote, and what follows the
  closing one.\<close>

function parse_chars :: "string \<Rightarrow> (string \<times> string) option" where
  "parse_chars [] = None"
| "parse_chars (c # cs) =
     (if c = CHR 0x22 then Some ([], cs)
      else if c = CHR 0x5C then
        (case cs of
           [] \<Rightarrow> None
         | e # es \<Rightarrow>
             if e = CHR ''u'' then
               (case Option.bind (hex4 (take 4 es)) utf8 of
                  None \<Rightarrow> None
                | Some bs \<Rightarrow> map_option (apfst (append bs)) (parse_chars (drop 4 es)))
             else
               (case unescape e of
                  None \<Rightarrow> None
                | Some d \<Rightarrow> map_option (apfst (Cons d)) (parse_chars es)))
      else if (of_char c :: nat) < 32 then None
      else map_option (apfst (Cons c)) (parse_chars cs))"
  by pat_completeness auto
termination
  by (relation "measure length") auto

fun parse_value :: "nat \<Rightarrow> string \<Rightarrow> (json \<times> string) option"
  and parse_elems :: "nat \<Rightarrow> string \<Rightarrow> (json list \<times> string) option"
  and parse_members :: "nat \<Rightarrow> string \<Rightarrow> ((string \<times> json) list \<times> string) option"
where
  "parse_value 0 s = None"
| "parse_value (Suc n) s =
     (case skip_ws s of
        [] \<Rightarrow> None
      | c # cs \<Rightarrow>
          if c = CHR 0x22 then map_option (apfst JStr) (parse_chars cs)
          else if c = CHR ''['' then
            (if skip_ws cs \<noteq> [] \<and> hd (skip_ws cs) = CHR '']''
             then Some (JArr [], tl (skip_ws cs))
             else map_option (apfst JArr) (parse_elems n cs))
          else if c = CHR ''{'' then
            (if skip_ws cs \<noteq> [] \<and> hd (skip_ws cs) = CHR ''}''
             then Some (JObj [], tl (skip_ws cs))
             else map_option (apfst JObj) (parse_members n cs))
          else if prefix ''true'' (c # cs) then Some (JBool True, drop 3 cs)
          else if prefix ''false'' (c # cs) then Some (JBool False, drop 4 cs)
          else if prefix ''null'' (c # cs) then Some (JNull, drop 3 cs)
          else parse_number (c # cs))"
| "parse_elems 0 s = None"
| "parse_elems (Suc n) s =
     (case parse_value n s of
        None \<Rightarrow> None
      | Some (v, r) \<Rightarrow>
          (case skip_ws r of
             [] \<Rightarrow> None
           | d # r' \<Rightarrow>
               if d = CHR '','' then map_option (apfst (Cons v)) (parse_elems n r')
               else if d = CHR '']'' then Some ([v], r')
               else None))"
| "parse_members 0 s = None"
| "parse_members (Suc n) s =
     (case skip_ws s of
        [] \<Rightarrow> None
      | q # cs \<Rightarrow>
          if q \<noteq> CHR 0x22 then None
          else
            (case parse_chars cs of
               None \<Rightarrow> None
             | Some (k, r) \<Rightarrow>
                 (case skip_ws r of
                    [] \<Rightarrow> None
                  | colon # r1 \<Rightarrow>
                      if colon \<noteq> CHR '':'' then None
                      else
                        (case parse_value n r1 of
                           None \<Rightarrow> None
                         | Some (v, r2) \<Rightarrow>
                             (case skip_ws r2 of
                                [] \<Rightarrow> None
                              | d # r3 \<Rightarrow>
                                  if d = CHR '','' then
                                    map_option (apfst (Cons (k, v))) (parse_members n r3)
                                  else if d = CHR ''}'' then Some ([(k, v)], r3)
                                  else None)))))"

definition JSON_parse :: "string \<Rightarrow> json option" where
  "JSON_parse s =
     (case parse_value (Suc (length s)) s of
        None \<Rightarrow> None
      | Some (v, r) \<Rightarrow> if skip_ws r = [] then Some v else None)"

text \<open>What may follow a value inside a text, and how a value's text may begin.\<close>

definition delimited :: "string \<Rightarrow> bool" where
  "delimited r = (r = [] \<or> hd r = CHR '','' \<or> hd r = CHR '']'' \<or> hd r = CHR ''}'')"

definition value_start :: "char \<Rightarrow> bool" where
  "value_start c = (c = CHR ''-'' \<or> is_digit c \<or> c \<in> set ''ntf[{'' \<or> c = CHR 0x22)"

subsection \<open>The operations of JavaScript on these values\<close>

text \<open>\<^verbatim>\<open>v.k\<close> for a key that no prototype defines (\<open>id\<close>, \<open>name\<close>, \<open>filmography\<close>,
  \<open>photoId\<close>): a TypeError on \<^verbatim>\<open>null\<close>, the field of an object, \<^verbatim>\<open>undefined\<close>
  otherwise.\<close>

datatype exn = TypeError | SyntaxError | StorageError

fun get_prop :: "json \<Rightarrow> string \<Rightarrow> exn + json option" where
  "get_prop JNull k = Inl TypeError"
| "get_prop (JObj fs) k = Inr (map_of fs k)"
| "get_prop v k = Inr None"

text \<open>The truth value of a condition.\<close>

fun truthy :: "json option \<Rightarrow> bool" where
  "truthy None = False"
| "truthy (Some JNull) = False"
| "truthy (Some (JBool b)) = b"
| "truthy (Some (JNum i)) = (i \<noteq> 0)"
| "truthy (Some (JStr s)) = (s \<noteq> [])"
| "truthy (Some (JArr vs)) = True"
| "truthy (Some (JObj fs)) = True"

text \<open>The text of a value inside a template literal.\<close>

fun js_string :: "json \<Rightarrow> string" where
  "js_string JNull = ''null''"
| "js_string (JBool b) = (if b then ''true'' else ''false'')"
| "js_string (JNum i) = show_int i"
| "js_string (JStr s) = s"
| "js_string (JArr vs) = join_commas (map (\<lambda>v. if v = JNull then [] else js_string v) vs)"
| "js_string (JObj fs) = ''[object Object]''"

definition template :: "json option \<Rightarrow> string" where
  "template x = (case x of None \<Rightarrow> ''undefined'' | Some v \<Rightarrow> js_string v)"

text \<open>\<^verbatim>\<open>x === s\<close> where \<open>s\<close> is a string or \<^verbatim>\<open>undefined\<close>.\<close>

definition strict_eq :: "json option \<Rightarrow> string option \<Rightarrow> bool" where
  "strict_eq x s = (x = map_option JStr s)"

text \<open>\<^verbatim>\<open>o[k] = v\<close> on the fields of an object: in place when the key is there, at the end
  when it is new.\<close>

definition set_field :: "string \<Rightarrow> json \<Rightarrow> (string \<times> json) list \<Rightarrow> (string \<times> json) list" where
  "set_field k v fs = AList.update k v fs"

text \<open>The own enumerable properties \<^verbatim>\<open>{...v}\<close> copies: the fields of an object, the
  elements of an array and the characters of a string under their indices, nothing for
  the other values.\<close>

definition spread :: "json \<Rightarrow> (string \<times> json) list" where
  "spread v =
     (case v of
        JObj fs \<Rightarrow> fs
      | JArr vs \<Rightarrow> zip (map (\<lambda>i. digits_of i) [0 ..< length vs]) vs
      | JStr s \<Rightarrow> zip (map (\<lambda>i. digits_of i) [0 ..< length s]) (map (\<lambda>c. JStr [c]) s)
      | _ \<Rightarrow> [])"

definition assign_all :: "(string \<times> json) list \<Rightarrow> (string \<times> json) list \<Rightarrow> (string \<times> json) list" where
  "assign_all fs new = foldl (\<lambda>acc kv. set_field (fst kv) (snd kv) acc) fs new"

text \<open>What \<^verbatim>\<open>for (... of v)\<close> iterates over; \<open>None\<close> when \<open>v\<close> is not iterable.\<close>

definition iterate :: "json \<Rightarrow> json list option" where
  "iterate v =
     (case v of
        JArr vs \<Rightarrow> Some vs
      | JStr s \<Rightarrow> Some (map (\<lambda>c. JStr [c]) s)
      | _ \<Rightarrow> None)"

text \<open>\<^verbatim>\<open>n.toString(36)\<close> for a natural number.\<close>

definition digit36 :: "nat \<Rightarrow> char" where
  "digit36 d = ''0123456789abcdefghijklmnopqrstuvwxyz'' ! d"

function toString36 :: "nat \<Rightarrow> string" where
  "toString36 n = (if n < 36 then [digit36 n] else toString36 (n div 36) @ [digit36 (n mod 36)])"
  by pat_completeness auto
termination
  by (relation "measure id") auto

section \<open>The worker's environment\<close>

text \<open>
  The R2 bucket holds objects under keys; an object is its bytes and the content type of
  its HTTP metadata. A call of the bucket may fail: \<open>faults\<close> says, for the calls to come
  and in their order, which ones throw (none once the list is used up). The clock and the
  random generator are read in order too: \<open>dates n\<close> is the \<open>n\<close>-th reading of the clock,
  as milliseconds and as the text of \<^verbatim>\<open>toISOString()\<close>, and \<open>randoms n\<close> is the text
  \<^verbatim>\<open>Math.random().toString(36).substr(2)\<close> of the \<open>n\<close>-th draw. \<open>console\<close> is what has
  been logged, latest first.
\<close>

record r2object =
  bytes :: string
  contentType :: "string option"

datatype level = Error | Warn

record world =
  objects :: "(string \<times> r2object) list"
  faults :: "bool list"
  dates :: "nat \<Rightarrow> nat \<times> string"
  ticks :: nat
  randoms :: "nat \<Rightarrow> string"
  draws :: nat
  console :: "(level \<times> string \<times> exn) list"

type_synonym 'a io = "world \<Rightarrow> (exn + 'a) \<times> world"

definition return :: "'a \<Rightarrow> 'a io" where
  "return x = (\<lambda>w. (Inr x, w))"

definition throw :: "exn \<Rightarrow> 'a io" where
  "throw e = (\<lambda>w. (Inl e, w))"

text \<open>\<^verbatim>\<open>const x = await m; k(x)\<close>: an exception of \<open>m\<close> skips \<open>k\<close>; the writes \<open>m\<close> made
  stay.\<close>

definition await :: "'a io \<Rightarrow> ('a \<Rightarrow> 'b io) \<Rightarrow> 'b io" where
  "await m k = (\<lambda>w. case m w of (Inl e, w') \<Rightarrow> (Inl e, w') | (Inr x, w') \<Rightarrow> k x w')"

text \<open>\<^verbatim>\<open>try { m } catch (error) { h(error) }\<close>.\<close>

definition try_catch :: "'a io \<Rightarrow> (exn \<Rightarrow> 'a io) \<Rightarrow> 'a io" where
  "try_catch m h = (\<lambda>w. case m w of (Inl e, w') \<Rightarrow> h e w' | (Inr x, w') \<Rightarrow> (Inr x, w'))"

definition of_result :: "exn + 'a \<Rightarrow> 'a io" where
  "of_result r = (case r of Inl e \<Rightarrow> throw e | Inr x \<Rightarrow> return x)"

definition console_log :: "level \<Rightarrow> string \<Rightarrow> exn \<Rightarrow> unit io" where
  "console_log l msg e = (\<lambda>w. (Inr (), w\<lparr>console := (l, msg, e) # console w\<rparr>))"

definition Date_now :: "(nat \<times> string) io" where
  "Date_now = (\<lambda>w. (Inr (dates w (ticks w)), w\<lparr>ticks := Suc (ticks w)\<rparr>))"

definition Math_random :: "string io" where
  "Math_random = (\<lambda>w. (Inr (randoms w (draws w)), w\<lparr>draws := Suc (draws w)\<rparr>))"

subsection \<open>The bucket\<close>

text \<open>One call of the bucket: it takes the next entry of \<open>faults\<close>, throws when the entry
  says so, and then has no effect on the objects.\<close>

fun next_fault :: "bool list \<Rightarrow> bool" where
  "next_fault [] = False"
| "next_fault (b # bs) = b"

definition bucket_call :: "(world \<Rightarrow> 'a \<times> world) \<Rightarrow> 'a io" where
  "bucket_call f =
     (\<lambda>w. let w1 = w\<lparr>faults := tl (faults w)\<rparr>
          in if next_fault (faults w) then (Inl StorageError, w1)
             else (case f w1 of (x, w') \<Rightarrow> (Inr x, w')))"

definition bucket_get :: "string \<Rightarrow> r2object option io" where
  "bucket_get key = bucket_call (\<lambda>w. (map_of (objects w) key, w))"

definition bucket_put :: "string \<Rightarrow> r2object \<Rightarrow> unit io" where
  "bucket_put key obj = bucket_call (\<lambda>w. ((), w\<lparr>objects := AList.update key obj (objects w)\<rparr>))"

definition bucket_delete :: "string \<Rightarrow> unit io" where
  "bucket_delete key = bucket_call (\<lambda>w. ((), w\<lparr>objects := AList.delete key (objects w)\<rparr>))"

text \<open>\<^verbatim>\<open>bucket.list({ prefix })\<close>: the keys with that prefix in lexicographic order, one
  page of at most 1000 of them (the worker asks for no further page).\<close>

definition bucket_list :: "string \<Rightarrow> string list io" where
  "bucket_list p =
     bucket_call (\<lambda>w. (take 1000 (sort (remdups (filter (prefix p) (map fst (objects w))))), w))"

subsection \<open>Requests and responses\<close>

text \<open>
  A request as the handlers read it: its method, the path of its URL, what
  \<^verbatim>\<open>request.json()\<close> resolves to (\<open>None\<close> when it rejects with a SyntaxError) and the
  entries \<^verbatim>\<open>request.formData()\<close> resolves to (\<open>None\<close> when it rejects with a
  TypeError). An entry of a form is a string or a file.
\<close>

record uploaded_file =
  file_name :: string
  file_type :: string
  file_stream :: string

datatype form_value = FormString string | FormFile uploaded_file

record request =
  http_method :: string
  pathname :: string
  json_body :: "json option"
  form_data :: "(string \<times> form_value) list option"

record response =
  status :: nat
  headers :: "(string \<times> string) list"
  body :: string

definition request_json :: "request \<Rightarrow> json io" where
  "request_json request = (case json_body request of None \<Rightarrow> throw SyntaxError | Some v \<Rightarrow> return v)"

definition request_formData :: "request \<Rightarrow> (string \<times> form_value) list io" where
  "request_formData request =
     (case form_data request of None \<Rightarrow> throw TypeError | Some fd \<Rightarrow> return fd)"

text \<open>\<^verbatim>\<open>new Response(JSON.stringify(v), { status, headers: { 'Content-Type':
  'application/json' } })\<close>; the status is 200 where the source gives none.\<close>

definition json_response :: "nat \<Rightarrow> json \<Rightarrow> response" where
  "json_response st v =
     \<lparr>status = st, headers = [(''Content-Type'', ''application/json'')], body = JSON_stringify v\<rparr>"

definition error_body :: "string \<Rightarrow> json" where
  "error_body msg = JObj [(''error'', JStr msg)]"

definition success_body :: json where
  "success_body = JObj [(''success'', JBool True)]"

text \<open>\<^verbatim>\<open>res.json()\<close> on a response.\<close>

definition response_json :: "response \<Rightarrow> json io" where
  "response_json res = (case JSON_parse (body res) of None \<Rightarrow> throw SyntaxError | Some v \<Rightarrow> return v)"

text \<open>\<^verbatim>\<open>text ? JSON.parse(text) : dflt\<close>; the empty text is falsy as \<^verbatim>\<open>null\<close> is.\<close>

definition parse_or :: "string option \<Rightarrow> json \<Rightarrow> json io" where
  "parse_or text dflt =
     (case text of
        None \<Rightarrow> return dflt
      | Some t \<Rightarrow>
          if t = [] then return dflt
          else (case JSON_parse t of None \<Rightarrow> throw SyntaxError | Some v \<Rightarrow> return v))"

text \<open>The text of a path parameter inside a template literal.\<close>

definition text_of :: "string option \<Rightarrow> string" where
  "text_of p = (case p of None \<Rightarrow> ''undefined'' | Some s \<Rightarrow> s)"

text \<open>\<^verbatim>\<open>handler(...params)\<close> binds a parameter to its capture, or to \<^verbatim>\<open>undefined\<close>
  when the expression has fewer groups.\<close>

definition arg :: "string list \<Rightarrow> nat \<Rightarrow> string option" where
  "arg params i = (if i < length params then Some (params ! i) else None)"

text \<open>The receiver of \<^verbatim>\<open>find\<close>, \<^verbatim>\<open>findIndex\<close>, \<^verbatim>\<open>filter\<close> and \<^verbatim>\<open>push\<close>: only an
  array has these methods.\<close>

definition as_array :: "json \<Rightarrow> json list io" where
  "as_array v = (case v of JArr vs \<Rightarrow> return vs | _ \<Rightarrow> throw TypeError)"

text \<open>\<^verbatim>\<open>artists.findIndex(a => a.id === artistId)\<close>, \<open>None\<close> for \<open>-1\<close>.\<close>

fun findIndex_id :: "json list \<Rightarrow> string option \<Rightarrow> exn + nat option" where
  "findIndex_id [] artistId = Inr None"
| "findIndex_id (a # as) artistId =
     (case get_prop a ''id'' of
        Inl e \<Rightarrow> Inl e
      | Inr x \<Rightarrow>
          if strict_eq x artistId then Inr (Some 0)
          else (case findIndex_id as artistId of
                  Inl e \<Rightarrow> Inl e
                | Inr None \<Rightarrow> Inr None
                | Inr (Some i) \<Rightarrow> Inr (Some (Suc i))))"

text \<open>\<^verbatim>\<open>artists.filter(a => a.id !== artistId)\<close>.\<close>

fun filter_id :: "json list \<Rightarrow> string option \<Rightarrow> exn + json list" where
  "filter_id [] artistId = Inr []"
| "filter_id (a # as) artistId =
     (case get_prop a ''id'' of
        Inl e \<Rightarrow> Inl e
      | Inr x \<Rightarrow>
          (case filter_id as artistId of
             Inl e \<Rightarrow> Inl e
           | Inr rest \<Rightarrow> Inr (if strict_eq x artistId then rest else a # rest)))"

text \<open>\<^verbatim>\<open>v.k = x\<close> in a module, which is strict code: a field of an object is set, an
  array takes a property that \<^verbatim>\<open>JSON.stringify\<close> does not print, any other value
  throws a TypeError.\<close>

fun set_prop :: "json \<Rightarrow> string \<Rightarrow> json \<Rightarrow> exn + json" where
  "set_prop (JObj fs) k x = Inr (JObj (set_field k x fs))"
| "set_prop (JArr vs) k x = Inr (JArr vs)"
| "set_prop v k x = Inl TypeError"

section \<open>The storage helpers\<close>

definition getR2Object :: "string \<Rightarrow> string option io" where
  "getR2Object key =
     try_catch
       (await (bucket_get key) (\<lambda>object. return (map_option bytes object)))
       (\<lambda>error. await (console_log Error (''getR2Object error for key '' @ key @ '':'') error)
                 (\<lambda>_. return None))"

definition putR2Object :: "string \<Rightarrow> string \<Rightarrow> unit io" where
  "putR2Object key data = bucket_put key \<lparr>bytes = data, contentType = Some ''application/json''\<rparr>"

definition deleteR2Object :: "string \<Rightarrow> unit io" where
  "deleteR2Object key = bucket_delete key"

definition getR2ObjectUrl :: "string \<Rightarrow> string" where
  "getR2ObjectUrl key = ''https://your-r2-domain.com/'' @ key"

definition getMainPhotoUrl :: "json option \<Rightarrow> string option io" where
  "getMainPhotoUrl artistId =
     try_catch
       (let mainPhotoKey = ''artists/'' @ template artistId @ ''/main.jpg''
        in await (bucket_get mainPhotoKey)
             (\<lambda>mainPhoto. case mainPhoto of
                             Some _ \<Rightarrow> return (Some (getR2ObjectUrl mainPhotoKey))
                           | None \<Rightarrow> return None))
       (\<lambda>error. await (console_log Error ''getMainPhotoUrl error:'' error) (\<lambda>_. return None))"

definition generateId :: "string io" where
  "generateId = await Date_now (\<lambda>now. await Math_random (\<lambda>r. return (toString36 (fst now) @ r)))"

text \<open>\<^verbatim>\<open>new Date().toISOString()\<close>.\<close>

definition new_Date_toISOString :: "string io" where
  "new_Date_toISOString = await Date_now (\<lambda>now. return (snd now))"

text \<open>\<^verbatim>\<open>for (const object of photosList.objects) await deleteR2Object(bucket, object.key)\<close>.\<close>

fun delete_each :: "string list \<Rightarrow> unit io" where
  "delete_each [] = return ()"
| "delete_each (key # keys) = await (deleteR2Object key) (\<lambda>_. delete_each keys)"

section \<open>The handlers\<close>

text \<open>Each handler is the body of its \<^verbatim>\<open>try\<close> block, and the \<^verbatim>\<open>catch\<close> that logs the
  error and answers 500.\<close>

definition failed :: "string \<Rightarrow> string \<Rightarrow> exn \<Rightarrow> response io" where
  "failed tag msg error =
     await (console_log Error tag error) (\<lambda>_. return (json_response 500 (error_body msg)))"

subsection \<open>Artists\<close>

text \<open>The loop of \<open>getArtists\<close>: \<^verbatim>\<open>artist.mainPhoto = mainPhotoUrl\<close> for every artist
  whose main photo exists.\<close>

fun attach_main_photos :: "json list \<Rightarrow> json list io" where
  "attach_main_photos [] = return []"
| "attach_main_photos (artist # rest) =
     await (of_result (get_prop artist ''id'')) (\<lambda>id.
     await (getMainPhotoUrl id) (\<lambda>mainPhotoUrl.
     await (case mainPhotoUrl of
              None \<Rightarrow> return artist
            | Some url \<Rightarrow>
                if url = [] then return artist
                else of_result (set_prop artist ''mainPhoto'' (JStr url))) (\<lambda>artist'.
     await (attach_main_photos rest) (\<lambda>rest'.
     return (artist' # rest')))))"

definition getArtists :: "response io" where
  "getArtists =
     try_catch
       (await (getR2Object ''data/artists.json'') (\<lambda>artistsData.
        await (parse_or artistsData (JArr [])) (\<lambda>artists.
        await (case artists of
                 JArr vs \<Rightarrow> await (attach_main_photos vs) (\<lambda>vs'. return (JArr vs'))
               | _ \<Rightarrow>
                  (case iterate artists of
                     None \<Rightarrow> throw TypeError
                   | Some vs \<Rightarrow> await (attach_main_photos vs) (\<lambda>_. return artists))) (\<lambda>artists'.
        return (json_response 200 artists')))))
       (failed ''getArtists error:'' ''Failed to get artists'')"

text \<open>\<^verbatim>\<open>existingArtists.push(newArtist)\<close>.\<close>

definition push :: "json \<Rightarrow> json \<Rightarrow> json io" where
  "push arr v = await (as_array arr) (\<lambda>vs. return (JArr (vs @ [v])))"

text \<open>The record of a new artist as \<^verbatim>\<open>JSON.stringify\<close> prints it: a name that is
  \<^verbatim>\<open>undefined\<close> is left out.\<close>

definition newArtist :: "string \<Rightarrow> json option \<Rightarrow> string \<Rightarrow> string \<Rightarrow> json" where
  "newArtist artistId name createdAt updatedAt =
     JObj ([(''id'', JStr artistId)]
           @ (case name of None \<Rightarrow> [] | Some v \<Rightarrow> [(''name'', v)])
           @ [(''createdAt'', JStr createdAt), (''updatedAt'', JStr updatedAt)])"

text \<open>\<^verbatim>\<open>if (data.filmography) await putR2Object(...)\<close>, in \<open>createArtist\<close> and in
  \<open>updateArtist\<close>.\<close>

definition put_filmography_if_given :: "string \<Rightarrow> json \<Rightarrow> unit io" where
  "put_filmography_if_given artistId data =
     await (of_result (get_prop data ''filmography'')) (\<lambda>filmography.
       case filmography of
         None \<Rightarrow> return ()
       | Some f \<Rightarrow>
           if truthy (Some f)
           then putR2Object (''data/filmography/'' @ artistId @ ''.json'') (JSON_stringify f)
           else return ())"

definition createArtist :: "request \<Rightarrow> response io" where
  "createArtist request =
     try_catch
       (await (request_json request) (\<lambda>artistData.
        await generateId (\<lambda>artistId.
        await (of_result (get_prop artistData ''name'')) (\<lambda>name.
        await new_Date_toISOString (\<lambda>createdAt.
        await new_Date_toISOString (\<lambda>updatedAt.
        await getArtists (\<lambda>res.
        await (response_json res) (\<lambda>existingArtists.
        await (push existingArtists (newArtist artistId name createdAt updatedAt)) (\<lambda>existingArtists'.
        await (putR2Object ''data/artists.json'' (JSON_stringify existingArtists')) (\<lambda>_.
        await (put_filmography_if_given artistId artistData) (\<lambda>_.
        return (json_response 200
                  (JObj [(''success'', JBool True), (''artistId'', JStr artistId)])))))))))))))
       (failed ''createArtist error:'' ''Failed to create artist'')"

text \<open>\<^verbatim>\<open>artists.find(a => a.id === artistId)\<close> is the element at the index
  \<open>findIndex_id\<close> returns.\<close>

definition getArtist :: "string option \<Rightarrow> response io" where
  "getArtist artistId =
     try_catch
       (await (getR2Object ''data/artists.json'') (\<lambda>artistsData.
        await (parse_or artistsData (JArr [])) (\<lambda>artists.
        await (as_array artists) (\<lambda>vs.
        await (of_result (findIndex_id vs artistId)) (\<lambda>found.
          case found of
            None \<Rightarrow> return (json_response 404 (error_body ''Artist not found''))
          | Some i \<Rightarrow>
              if \<not> truthy (Some (vs ! i))
              then return (json_response 404 (error_body ''Artist not found''))
              else
              await (getR2Object (''data/filmography/'' @ text_of artistId @ ''.json'')) (\<lambda>filmographyData.
              await (case filmographyData of
                       None \<Rightarrow> return (vs ! i)
                     | Some t \<Rightarrow>
                         if t = [] then return (vs ! i)
                         else (case JSON_parse t of
                                 None \<Rightarrow> throw SyntaxError
                               | Some f \<Rightarrow> of_result (set_prop (vs ! i) ''filmography'' f))) (\<lambda>artist.
              await (getMainPhotoUrl (map_option JStr artistId)) (\<lambda>mainPhotoUrl.
              await (case mainPhotoUrl of
                       None \<Rightarrow> return artist
                     | Some url \<Rightarrow>
                         if url = [] then return artist
                         else of_result (set_prop artist ''mainPhoto'' (JStr url))) (\<lambda>artist'.
              return (json_response 200 artist'))))))))))
       (failed ''getArtist error:'' ''Failed to get artist'')"

definition updateArtist :: "string option \<Rightarrow> request \<Rightarrow> response io" where
  "updateArtist artistId request =
     try_catch
       (await (request_json request) (\<lambda>updateData.
        await (getR2Object ''data/artists.json'') (\<lambda>artistsData.
        await (parse_or artistsData (JArr [])) (\<lambda>artists.
        await (as_array artists) (\<lambda>vs.
        await (of_result (findIndex_id vs artistId)) (\<lambda>artistIndex.
          case artistIndex of
            None \<Rightarrow> return (json_response 404 (error_body ''Artist not found''))
          | Some i \<Rightarrow>
              await new_Date_toISOString (\<lambda>updatedAt.
              let merged = JObj (set_field ''updatedAt'' (JStr updatedAt)
                                   (assign_all (assign_all [] (spread (vs ! i))) (spread updateData)))
              in
              await (putR2Object ''data/artists.json'' (JSON_stringify (JArr (vs[i := merged])))) (\<lambda>_.
              await (put_filmography_if_given (text_of artistId) updateData) (\<lambda>_.
              return (json_response 200 success_body))))))))))
       (failed ''updateArtist error:'' ''Failed to update artist'')"

text \<open>The inner \<^verbatim>\<open>try\<close> of \<open>deleteArtist\<close>: every object under the artist's prefix is
  deleted, and an error of the listing or of a deletion is logged as a warning.\<close>

definition delete_photos :: "string option \<Rightarrow> unit io" where
  "delete_photos artistId =
     try_catch
       (await (bucket_list (''artists/'' @ text_of artistId @ ''/'')) (\<lambda>photosList.
        delete_each photosList))
       (\<lambda>deleteError. console_log Warn ''Photo deletion error:'' deleteError)"

definition deleteArtist :: "string option \<Rightarrow> response io" where
  "deleteArtist artistId =
     try_catch
       (await (getR2Object ''data/artists.json'') (\<lambda>artistsData.
        await (parse_or artistsData (JArr [])) (\<lambda>artists.
        await (as_array artists) (\<lambda>vs.
        await (of_result (filter_id vs artistId)) (\<lambda>filteredArtists.
        await (putR2Object ''data/artists.json'' (JSON_stringify (JArr filteredArtists))) (\<lambda>_.
        await (deleteR2Object (''data/filmography/'' @ text_of artistId @ ''.json'')) (\<lambda>_.
        await (delete_photos artistId) (\<lambda>_.
        return (json_response 200 success_body)))))))))
       (failed ''deleteArtist error:'' ''Failed to delete artist'')"

subsection \<open>Photos\<close>

text \<open>\<^verbatim>\<open>object.key.split('/').pop().split('.')[0]\<close>.\<close>

definition photo_id_of_key :: "string \<Rightarrow> string option" where
  "photo_id_of_key key =
     (case pop (split_on CHR ''/'' key) of
        None \<Rightarrow> None
      | Some name \<Rightarrow> (case split_on CHR ''.'' name of [] \<Rightarrow> None | x # _ \<Rightarrow> Some x))"

definition photo_entry :: "string \<Rightarrow> json" where
  "photo_entry key =
     JObj ((case photo_id_of_key key of None \<Rightarrow> [] | Some photoId \<Rightarrow> [(''id'', JStr photoId)])
           @ [(''url'', JStr (getR2ObjectUrl key)), (''isMain'', JBool False)])"

definition getArtistPhotos :: "string option \<Rightarrow> response io" where
  "getArtistPhotos artistId =
     try_catch
       (await (bucket_list (''artists/'' @ text_of artistId @ ''/photos/'')) (\<lambda>photosList.
        return (json_response 200 (JArr (map photo_entry photosList)))))
       (failed ''getArtistPhotos error:'' ''Failed to get photos'')"

text \<open>\<^verbatim>\<open>photo.name.split('.').pop() || 'jpg'\<close>: the text after the last dot of the name,
  the whole name when it has no dot, and \<^verbatim>\<open>jpg\<close> when that text is empty.\<close>

definition fileExtension :: "string \<Rightarrow> string" where
  "fileExtension name =
     (case pop (split_on CHR ''.'' name) of
        None \<Rightarrow> ''jpg''
      | Some ext \<Rightarrow> if ext = [] then ''jpg'' else ext)"

text \<open>\<^verbatim>\<open>!photo\<close> for what \<^verbatim>\<open>formData.get('photo')\<close> returns: \<^verbatim>\<open>null\<close> when the form
  has no such entry, and the empty string is falsy too.\<close>

definition no_photo :: "form_value option \<Rightarrow> bool" where
  "no_photo photo = (case photo of None \<Rightarrow> True | Some (FormString s) \<Rightarrow> s = [] | Some (FormFile f) \<Rightarrow> False)"

definition uploadPhoto :: "string option \<Rightarrow> request \<Rightarrow> response io" where
  "uploadPhoto artistId request =
     try_catch
       (await (request_formData request) (\<lambda>formData.
        let photo = map_of formData ''photo'' in
        if no_photo photo
        then return (json_response 400 (error_body ''No photo provided''))
        else
          await generateId (\<lambda>photoId.
            case photo of
              Some (FormFile f) \<Rightarrow>
                let key = ''artists/'' @ text_of artistId @ ''/photos/'' @ photoId @ ''.''
                            @ fileExtension (file_name f)
                in
                await (bucket_put key \<lparr>bytes = file_stream f, contentType = Some (file_type f)\<rparr>) (\<lambda>_.
                return (json_response 200
                          (JObj [(''success'', JBool True), (''photoId'', JStr photoId),
                                 (''url'', JStr (getR2ObjectUrl key))])))
            | _ \<Rightarrow> throw TypeError)))
       (failed ''uploadPhoto error:'' ''Failed to upload photo'')"

definition deletePhoto :: "string option \<Rightarrow> string option \<Rightarrow> response io" where
  "deletePhoto artistId photoId =
     try_catch
       (await (bucket_list (''artists/'' @ text_of artistId @ ''/photos/'' @ text_of photoId)) (\<lambda>photosList.
        await (delete_each photosList) (\<lambda>_.
        return (json_response 200 success_body))))
       (failed ''deletePhoto error:'' ''Failed to delete photo'')"

definition setMainPhoto :: "string option \<Rightarrow> request \<Rightarrow> response io" where
  "setMainPhoto artistId request =
     try_catch
       (await (request_json request) (\<lambda>data.
        await (of_result (get_prop data ''photoId'')) (\<lambda>photoId.
        await (bucket_list (''artists/'' @ text_of artistId @ ''/photos/'' @ template photoId)) (\<lambda>photosList.
          case photosList of
            [] \<Rightarrow> return (json_response 404 (error_body ''Photo not found''))
          | sourceKey # _ \<Rightarrow>
              await (bucket_get sourceKey) (\<lambda>sourceObject.
                case sourceObject of
                  None \<Rightarrow> return (json_response 404 (error_body ''Photo not found''))
                | Some source \<Rightarrow>
                    let mainPhotoKey = ''artists/'' @ text_of artistId @ ''/main.jpg'' in
                    await (bucket_put mainPhotoKey
                             \<lparr>bytes = bytes source, contentType = contentType source\<rparr>) (\<lambda>_.
                    return (json_response 200 success_body)))))))
       (failed ''setMainPhoto error:'' ''Failed to set main photo'')"

subsection \<open>Filmography\<close>

definition empty_filmography :: json where
  "empty_filmography = JObj [(''dramas'', JArr []), (''movies'', JArr []), (''commercials'', JArr [])]"

definition getFilmography :: "string option \<Rightarrow> response io" where
  "getFilmography artistId =
     try_catch
       (await (getR2Object (''data/filmography/'' @ text_of artistId @ ''.json'')) (\<lambda>filmographyData.
        await (parse_or filmographyData empty_filmography) (\<lambda>filmography.
        return (json_response 200 filmography))))
       (failed ''getFilmography error:'' ''Failed to get filmography'')"

definition updateFilmography :: "string option \<Rightarrow> request \<Rightarrow> response io" where
  "updateFilmography artistId request =
     try_catch
       (await (request_json request) (\<lambda>filmographyData.
        await (putR2Object (''data/filmography/'' @ text_of artistId @ ''.json'')
                 (JSON_stringify filmographyData)) (\<lambda>_.
        return (json_response 200 success_body))))
       (failed ''updateFilmography error:'' ''Failed to update filmography'')"

subsection \<open>Export\<close>

text \<open>The bytes of the title's fixed part, a blank, a hyphen and a blank before the
  agency's words for its artists.\<close>

definition title_suffix :: string where
  "title_suffix =
     [CHR 0x20, CHR 0x2D, CHR 0x20, CHR 0xEC, CHR 0x95, CHR 0x84, CHR 0xED, CHR 0x81, CHR 0xAC,
      CHR 0xEB, CHR 0xA6, CHR 0xAC, CHR 0xEB, CHR 0x93, CHR 0x9C, CHR 0x20, CHR 0xEC, CHR 0x95,
      CHR 0x84, CHR 0xED, CHR 0x8B, CHR 0xB0, CHR 0xEC, CHR 0x8A, CHR 0xA4, CHR 0xED, CHR 0x8A,
      CHR 0xB8]"

fun export_artists_loop :: "json list \<Rightarrow> (string \<times> json) list \<Rightarrow> (string \<times> json) list io" where
  "export_artists_loop [] exportData = return exportData"
| "export_artists_loop (artist # rest) exportData =
     await (of_result (get_prop artist ''id'')) (\<lambda>id.
     await (getR2Object (''data/filmography/'' @ template id @ ''.json'')) (\<lambda>filmographyData.
     await (parse_or filmographyData empty_filmography) (\<lambda>filmography.
     await (getMainPhotoUrl id) (\<lambda>mainPhotoUrl.
     await (of_result (get_prop artist ''name'')) (\<lambda>name.
     export_artists_loop rest
       (set_field (template name)
          (JObj [(''title'', JStr (template name @ title_suffix)),
                 (''filmography'', filmography),
                 (''mainPhoto'', (case mainPhotoUrl of None \<Rightarrow> JNull | Some url \<Rightarrow> JStr url))])
          exportData))))))"

definition exportArtistsData :: "response io" where
  "exportArtistsData =
     try_catch
       (await (getR2Object ''data/artists.json'') (\<lambda>artistsData.
        await (parse_or artistsData (JArr [])) (\<lambda>artists.
          case iterate artists of
            None \<Rightarrow> throw TypeError
          | Some vs \<Rightarrow>
              await (export_artists_loop vs []) (\<lambda>exportData.
              return (json_response 200 (JObj exportData))))))
       (failed ''exportArtistsData error:'' ''Failed to export artists data'')"

fun export_filmography_loop :: "json list \<Rightarrow> (string \<times> json) list \<Rightarrow> (string \<times> json) list io" where
  "export_filmography_loop [] filmographyData = return filmographyData"
| "export_filmography_loop (artist # rest) filmographyData =
     await (of_result (get_prop artist ''id'')) (\<lambda>id.
     await (getR2Object (''data/filmography/'' @ template id @ ''.json'')) (\<lambda>data.
       case data of
         None \<Rightarrow> export_filmography_loop rest filmographyData
       | Some t \<Rightarrow>
           if t = [] then export_filmography_loop rest filmographyData
           else
             await (of_result (get_prop artist ''name'')) (\<lambda>name.
               case JSON_parse t of
                 None \<Rightarrow> throw SyntaxError
               | Some f \<Rightarrow> export_filmography_loop rest (set_field (template name) f filmographyData))))"

definition exportFilmographyData :: "response io" where
  "exportFilmographyData =
     try_catch
       (await (getR2Object ''data/artists.json'') (\<lambda>artistsData.
        await (parse_or artistsData (JArr [])) (\<lambda>artists.
          case iterate artists of
            None \<Rightarrow> throw TypeError
          | Some vs \<Rightarrow>
              await (export_filmography_loop vs []) (\<lambda>filmographyData.
              return (json_response 200 (JObj filmographyData))))))
       (failed ''exportFilmographyData error:'' ''Failed to export filmography data'')"

section \<open>The router\<close>

text \<open>The table of \<open>handleApiRequest\<close>, in the order \<^verbatim>\<open>Object.entries\<close> lists its keys:
  a pattern and the function called with the captures.\<close>

definition routes :: "request \<Rightarrow> (string \<times> (string list \<Rightarrow> response io)) list" where
  "routes request =
     [(''GET /api/artists'', \<lambda>params. getArtists),
      (''POST /api/artists'', \<lambda>params. createArtist request),
      (''GET /api/artists/(.+)'', \<lambda>params. getArtist (arg params 0)),
      (''PUT /api/artists/(.+)'', \<lambda>params. updateArtist (arg params 0) request),
      (''DELETE /api/artists/(.+)'', \<lambda>params. deleteArtist (arg params 0)),
      (''GET /api/artists/(.+)/photos'', \<lambda>params. getArtistPhotos (arg params 0)),
      (''POST /api/artists/(.+)/photos'', \<lambda>params. uploadPhoto (arg params 0) request),
      (''DELETE /api/artists/(.+)/photos/(.+)'', \<lambda>params. deletePhoto (arg params 0) (arg params 1)),
      (''PUT /api/artists/(.+)/main-photo'', \<lambda>params. setMainPhoto (arg params 0) request),
      (''GET /api/artists/(.+)/filmography'', \<lambda>params. getFilmography (arg params 0)),
      (''PUT /api/artists/(.+)/filmography'', \<lambda>params. updateFilmography (arg params 0) request),
      (''GET /api/export/artists'', \<lambda>params. exportArtistsData),
      (''GET /api/export/filmography'', \<lambda>params. exportFilmographyData)]"

text \<open>The expression of one entry: \<^verbatim>\<open>new RegExp(`^${routePath.replace(...)}$`)\<close>.\<close>

definition route_regex :: "string \<Rightarrow> rx list option" where
  "route_regex routePath = compile_regex (''^'' @ replace_groups routePath @ ''$'')"

text \<open>The loop over the entries. The first entry whose method is the request's and whose
  expression matches the path answers; with none, the answer is 404.\<close>

fun dispatch :: "string \<Rightarrow> string \<Rightarrow> (string \<times> (string list \<Rightarrow> response io)) list \<Rightarrow> response io" where
  "dispatch m p [] = return (json_response 404 (error_body ''Not Found''))"
| "dispatch m p ((routePattern, handler) # rest) =
     (case split_on CHR '' '' routePattern of
        [] \<Rightarrow> dispatch m p rest
      | routeMethod # others \<Rightarrow>
          if m = routeMethod then
            (case others of
               [] \<Rightarrow> throw TypeError
             | routePath # _ \<Rightarrow>
                 (case route_regex routePath of
                    None \<Rightarrow> throw SyntaxError
                  | Some regex \<Rightarrow>
                      (case path_match regex p of
                         Some params \<Rightarrow> handler params
                       | None \<Rightarrow> dispatch m p rest)))
          else dispatch m p rest)"

definition handleApiRequest :: "request \<Rightarrow> response io" where
  "handleApiRequest request = dispatch (http_method request) (pathname request) (routes request)"

section \<open>Notions the properties are stated with\<close>

text \<open>The \<open>n\<close>-th bucket call to come throws; no call to come throws.\<close>

primrec fault_at :: "nat \<Rightarrow> bool list \<Rightarrow> bool" where
  "fault_at 0 fs = next_fault fs"
| "fault_at (Suc n) fs = fault_at n (tl fs)"

definition reliable :: "world \<Rightarrow> bool" where
  "reliable w = (True \<notin> set (faults w))"

text \<open>One of the calls of the inner \<^verbatim>\<open>try\<close> of \<open>deleteArtist\<close> throws: the listing of
  the keys under the artist's prefix, which is the fourth call of the bucket, or one of the
  deletions that follow it, one for each key of the listing.\<close>

definition photo_call_fails :: "string \<Rightarrow> world \<Rightarrow> bool" where
  "photo_call_fails artistId w =
     (True \<in> set (take (Suc (length (take 1000 (sort (remdups (filter
                      (prefix (''artists/'' @ artistId @ ''/'')) (map fst (objects w))))))))
                    (drop 3 (faults w))))"

text \<open>An artist record is an object.\<close>

fun is_record :: "json \<Rightarrow> bool" where
  "is_record (JObj fs) = True"
| "is_record v = False"

text \<open>The artist collection the bucket holds: the elements of the array that the document
  \<^verbatim>\<open>data/artists.json\<close> parses to, none when the document is missing or empty. \<open>None\<close>
  when the document is some other text.\<close>

definition stored_artists :: "world \<Rightarrow> json list option" where
  "stored_artists w =
     (case map_of (objects w) ''data/artists.json'' of
        None \<Rightarrow> Some []
      | Some obj \<Rightarrow>
          if bytes obj = [] then Some []
          else (case JSON_parse (bytes obj) of Some (JArr vs) \<Rightarrow> Some vs | _ \<Rightarrow> None))"

text \<open>The artist has the given id.\<close>

definition has_id :: "string \<Rightarrow> json \<Rightarrow> bool" where
  "has_id artistId a = (get_prop a ''id'' = Inr (Some (JStr artistId)))"

text \<open>An artist record as the list handler returns it: with the URL of the main photo
  under \<^verbatim>\<open>mainPhoto\<close> when the bucket holds a main photo for the record's id.\<close>

definition with_main_photo :: "(string \<times> r2object) list \<Rightarrow> json \<Rightarrow> json" where
  "with_main_photo objs a =
     (case a of
        JObj fs \<Rightarrow>
          (let key = ''artists/'' @ template (map_of fs ''id'') @ ''/main.jpg''
           in case map_of objs key of
                None \<Rightarrow> a
              | Some _ \<Rightarrow> JObj (set_field ''mainPhoto'' (JStr (getR2ObjectUrl key)) fs))
      | _ \<Rightarrow> a)"

section \<open>An example environment\<close>

text \<open>A bucket with one artist, her main photo and one uploaded photo; no call fails.\<close>

definition example_artists :: json where
  "example_artists = JArr [JObj [(''id'', JStr ''a1''), (''name'', JStr ''Lee'')]]"

definition example_world :: world where
  "example_world =
     \<lparr>objects =
        [(''data/artists.json'',
          \<lparr>bytes = JSON_stringify example_artists, contentType = Some ''application/json''\<rparr>),
         (''artists/a1/main.jpg'', \<lparr>bytes = ''JPEG'', contentType = Some ''image/jpeg''\<rparr>),
         (''artists/a1/photos/p1.png'', \<lparr>bytes = ''PNG'', contentType = Some ''image/png''\<rparr>)],
      faults = [],
      dates = (\<lambda>n. (1700000000000 + n, ''2023-11-14T22:13:20.000Z'')),
      ticks = 0,
      randoms = (\<lambda>n. ''k3x9'' @ digits_of n),
      draws = 0,
      console = []\<rparr>"

definition example_request :: "string \<Rightarrow> string \<Rightarrow> request" where
  "example_request m p = \<lparr>http_method = m, pathname = p, json_body = None, form_data = None\<rparr>"

definition example_json_request :: "string \<Rightarrow> string \<Rightarrow> json \<Rightarrow> request" where
  "example_json_request m p v =
     \<lparr>http_method = m, pathname = p, json_body = Some v, form_data = None\<rparr>"

definition example_form_request :: "string \<Rightarrow> string \<Rightarrow> (string \<times> form_value) list \<Rightarrow> request" where
  "example_form_request m p fd =
     \<lparr>http_method = m, pathname = p, json_body = None, form_data = Some fd\<rparr>"

section \<open>Properties of the JSON text\<close>

text \<open>The two recursions on a number are unfolded by hand.\<close>

declare digits_of.simps [simp del] toString36.simps [simp del]

lemma digit_char_digit: "d < 10 \<Longrightarrow> is_digit (digit_char d)"
  by (simp add: is_digit_def digit_char_def)

lemma digit_char_val: "d < 10 \<Longrightarrow> (of_char (digit_char d) :: nat) - 48 = d"
  by (simp add: digit_char_def)

lemma digits_of_nonempty: "digits_of n \<noteq> []"
  by (subst digits_of.simps) simp

lemma digits_of_digits: "c \<in> set (digits_of n) \<Longrightarrow> is_digit c"
proof (induction n arbitrary: c rule: digits_of.induct)
  case (1 n)
  show ?case
  proof (cases "n < 10")
    case True
    with "1.prems" show ?thesis
      by (subst (asm) digits_of.simps) (simp add: digit_char_digit)
  next
    case False
    with "1.prems" "1.IH" show ?thesis
      by (subst (asm) digits_of.simps) (auto simp: digit_char_digit)
  qed
qed

lemma nat_of_digits_snoc:
  "nat_of_digits (ds @ [c]) = 10 * nat_of_digits ds + ((of_char c :: nat) - 48)"
  by (simp add: nat_of_digits_def)

lemma nat_of_digits_of: "nat_of_digits (digits_of n) = n"
proof (induction n rule: digits_of.induct)
  case (1 n)
  show ?case
  proof (cases "n < 10")
    case True
    then show ?thesis
      by (subst digits_of.simps) (simp add: nat_of_digits_def digit_char_val)
  next
    case False
    with "1.IH" show ?thesis
      by (subst digits_of.simps) (simp add: nat_of_digits_snoc digit_char_val)
  qed
qed

lemma hd_digits_of_zero: "hd (digits_of n) = CHR ''0'' \<Longrightarrow> n = 0"
proof (induction n rule: digits_of.induct)
  case (1 n)
  show ?case
  proof (cases "n < 10")
    case True
    with "1.prems" have "digit_char n = CHR ''0''"
      by (subst (asm) digits_of.simps) simp
    then have "(of_char (digit_char n) :: nat) - 48 = 0" by simp
    with True show ?thesis by (simp add: digit_char_val)
  next
    case False
    with "1.prems" have "hd (digits_of (n div 10)) = CHR ''0''"
      by (subst (asm) digits_of.simps) (simp add: digits_of_nonempty)
    with False "1.IH" have "n div 10 = 0" by simp
    with False show ?thesis by simp
  qed
qed

lemma digit_char_0: "digit_char 0 = CHR ''0''"
  by code_simp

lemma digits_of_0: "digits_of 0 = ''0''"
  by (subst digits_of.simps) (simp add: digit_char_0)

lemma delimited_not_digit: "delimited r \<Longrightarrow> r = [] \<or> \<not> is_digit (hd r)"
  by (auto simp: delimited_def is_digit_def)

lemma takeWhile_digits:
  "delimited r \<Longrightarrow> takeWhile is_digit (digits_of n @ r) = digits_of n"
  using delimited_not_digit [of r]
  by (cases r) (auto simp: takeWhile_append digits_of_digits)

lemma dropWhile_digits:
  "delimited r \<Longrightarrow> dropWhile is_digit (digits_of n @ r) = r"
  using delimited_not_digit [of r]
  by (cases r) (auto simp: dropWhile_append digits_of_digits)

lemma parse_number_nat:
  assumes "delimited r"
  shows "parse_number (digits_of n @ r) = Some (JNum (int n), r)"
proof -
  have hd: "hd (digits_of n @ r) \<noteq> CHR ''-''"
    using digits_of_digits [of "hd (digits_of n)" n] digits_of_nonempty [of n]
    by (auto simp: is_digit_def hd_append)
  have lz: "\<not> (hd (digits_of n) = CHR ''0'' \<and> 1 < length (digits_of n))"
    using hd_digits_of_zero [of n] by (auto simp: digits_of_0)
  have r: "\<not> (r \<noteq> [] \<and> hd r \<in> set ''.eE'')"
    using assms by (auto simp: delimited_def)
  show ?thesis
    using hd lz r
    by (simp add: parse_number_def takeWhile_digits dropWhile_digits assms digits_of_nonempty
        nat_of_digits_of Let_def)
qed

lemma parse_number_neg:
  assumes "delimited r"
  shows "parse_number (CHR ''-'' # digits_of n @ r) = Some (JNum (- int n), r)"
proof -
  have lz: "\<not> (hd (digits_of n) = CHR ''0'' \<and> 1 < length (digits_of n))"
    using hd_digits_of_zero [of n] by (auto simp: digits_of_0)
  have r: "\<not> (r \<noteq> [] \<and> hd r \<in> set ''.eE'')"
    using assms by (auto simp: delimited_def)
  show ?thesis
    using lz r
    by (simp add: parse_number_def takeWhile_digits dropWhile_digits assms digits_of_nonempty
        nat_of_digits_of Let_def)
qed

lemma parse_number_show_int:
  "delimited r \<Longrightarrow> parse_number (show_int i @ r) = Some (JNum i, r)"
  by (cases "i < 0") (simp_all add: show_int_def parse_number_nat parse_number_neg)

lemma hex_val_hex_char: "d < 16 \<Longrightarrow> hex_val (hex_char d) = Some d"
  by (auto simp: eval_nat_numeral less_Suc_eq hex_char_def hex_val_def)

lemma hex4_control:
  assumes "n < 32"
  shows "hex4 [CHR ''0'', CHR ''0'', hex_char (n div 16), hex_char (n mod 16)] = Some n"
proof -
  have "n div 16 < 16" using assms by simp
  then have a: "hex_val (hex_char (n div 16)) = Some (n div 16)"
    by (rule hex_val_hex_char)
  have b: "hex_val (hex_char (n mod 16)) = Some (n mod 16)"
    by (rule hex_val_hex_char) simp
  have z: "hex_val CHR ''0'' = Some 0"
    by (simp add: hex_val_def)
  show ?thesis
    by (simp add: a b z)
qed

lemma parse_chars_escape:
  "parse_chars (escape_char c @ t) = map_option (apfst (Cons c)) (parse_chars t)"
proof -
  consider (two) "c \<in> {CHR 0x22, CHR 0x5C, CHR 0x08, CHR 0x0C, CHR 0x0A, CHR 0x0D, CHR 0x09}"
    | (ctl) "c \<notin> {CHR 0x22, CHR 0x5C, CHR 0x08, CHR 0x0C, CHR 0x0A, CHR 0x0D, CHR 0x09}"
            "(of_char c :: nat) < 32"
    | (plain) "c \<noteq> CHR 0x22" "c \<noteq> CHR 0x5C" "\<not> (of_char c :: nat) < 32"
    by auto
  then show ?thesis
  proof cases
    case two
    then show ?thesis
      by (auto simp: escape_char_def unescape_def)
  next
    case ctl
    have u: "utf8 (of_char c) = Some [c]"
      using ctl(2) by (simp add: utf8_def)
    have e: "escape_char c = [CHR 0x5C, CHR ''u'', CHR ''0'', CHR ''0'',
              hex_char ((of_char c :: nat) div 16), hex_char ((of_char c :: nat) mod 16)]"
      using ctl by (simp add: escape_char_def)
    have a: "(@) [c] = (#) c"
      by (rule ext) simp
    show ?thesis
      unfolding e by (simp add: hex4_control [OF ctl(2)] u a del: hex4.simps)
  next
    case plain
    then have "escape_char c = [c]"
      by (auto simp: escape_char_def)
    with plain show ?thesis by simp
  qed
qed

lemma parse_chars_quoted:
  "parse_chars (concat (map escape_char s) @ CHR 0x22 # r) = Some (s, r)"
  by (induction s) (simp_all add: parse_chars_escape)

lemma skip_ws_start: "\<not> is_ws c \<Longrightarrow> skip_ws (c # cs) = c # cs"
  by (simp add: skip_ws_def)

lemma delimited_simps [simp]:
  "delimited []" "delimited (CHR '','' # t)" "delimited (CHR '']'' # t)" "delimited (CHR ''}'' # t)"
  by (simp_all add: delimited_def)

lemma value_start_not_ws: "value_start c \<Longrightarrow> \<not> is_ws c"
  by (auto simp: value_start_def is_ws_def is_digit_def)

lemma value_start_not_close: "value_start c \<Longrightarrow> c \<noteq> CHR '']'' \<and> c \<noteq> CHR ''}''"
  by (auto simp: value_start_def is_digit_def)

lemma show_int_start: "\<exists>c cs. show_int i = c # cs \<and> (c = CHR ''-'' \<or> is_digit c)"
proof (cases "i < 0")
  case True
  then show ?thesis by (simp add: show_int_def)
next
  case False
  obtain c cs where "digits_of (nat i) = c # cs"
    using digits_of_nonempty [of "nat i"] by (cases "digits_of (nat i)") auto
  moreover from this have "is_digit c"
    using digits_of_digits [of c "nat i"] by simp
  ultimately show ?thesis
    using False by (simp add: show_int_def)
qed

lemma stringify_start: "\<exists>c cs. JSON_stringify v = c # cs \<and> value_start c"
proof (cases v)
  case (JNum i)
  with show_int_start [of i] show ?thesis
    by (auto simp: value_start_def)
qed (auto simp: value_start_def quote_def)

lemma parse_value_other:
  assumes "\<not> is_ws c" and "c \<noteq> CHR 0x22" and "c \<noteq> CHR ''[''" and "c \<noteq> CHR ''{''"
    and "c \<noteq> CHR ''t''" and "c \<noteq> CHR ''f''" and "c \<noteq> CHR ''n''"
  shows "parse_value (Suc n) (c # cs) = parse_number (c # cs)"
  using assms by (simp add: skip_ws_start)

lemma number_start:
  assumes "c = CHR ''-'' \<or> is_digit c"
  shows "\<not> is_ws c" and "c \<noteq> CHR 0x22" and "c \<noteq> CHR ''[''" and "c \<noteq> CHR ''{''"
    and "c \<noteq> CHR ''t''" and "c \<noteq> CHR ''f''" and "c \<noteq> CHR ''n''"
  using assms by (auto simp: is_ws_def is_digit_def)

lemma parse_value_number:
  assumes "delimited r"
  shows "parse_value (Suc n) (show_int i @ r) = Some (JNum i, r)"
proof -
  obtain c cs where c: "show_int i = c # cs" "c = CHR ''-'' \<or> is_digit c"
    using show_int_start by blast
  have "parse_value (Suc n) (c # cs @ r) = parse_number (c # cs @ r)"
    by (rule parse_value_other) (rule number_start [OF c(2)])+
  then show ?thesis
    using parse_number_show_int [OF assms, of i] c(1) by (simp del: parse_value.simps)
qed

lemma parse_elems_join:
  assumes "\<And>v n r. v \<in> set vs \<Longrightarrow> size v < n \<Longrightarrow> delimited r
             \<Longrightarrow> parse_value n (JSON_stringify v @ r) = Some (v, r)"
    and "vs \<noteq> []" and "size_list size vs < n"
  shows "parse_elems n (join_commas (map JSON_stringify vs) @ CHR '']'' # r) = Some (vs, r)"
  using assms
proof (induction vs arbitrary: n)
  case Nil
  then show ?case by simp
next
  case (Cons x xs)
  note IH = Cons.IH and prems = Cons.prems
  from prems(3) obtain m where n: "n = Suc m" and m: "size x < m" "size_list size xs < m"
    by (cases n) auto
  show ?case
  proof (cases xs)
    case Nil
    have "parse_value m (JSON_stringify x @ CHR '']'' # r) = Some (x, CHR '']'' # r)"
      using prems(1) [of x m "CHR '']'' # r"] m by simp
    then show ?thesis
      using Nil n by (simp add: skip_ws_start is_ws_def)
  next
    case (Cons y ys)
    let ?rest = "join_commas (map JSON_stringify xs) @ CHR '']'' # r"
    have a: "parse_value m (JSON_stringify x @ CHR '','' # ?rest) = Some (x, CHR '','' # ?rest)"
      using prems(1) [of x m "CHR '','' # ?rest"] m by simp
    have b: "parse_elems m ?rest = Some (xs, r)"
      using IH [of m] prems(1) m Cons by simp
    show ?thesis
      using a b Cons n by (simp add: skip_ws_start is_ws_def)
  qed
qed

lemma parse_members_join:
  assumes "\<And>k v n r. (k, v) \<in> set fs \<Longrightarrow> size v < n \<Longrightarrow> delimited r
             \<Longrightarrow> parse_value n (JSON_stringify v @ r) = Some (v, r)"
    and "fs \<noteq> []" and "size_list (size_prod (\<lambda>_. 0) size) fs < n"
  shows "parse_members n
           (join_commas (map (\<lambda>kv. quote (fst kv) @ CHR '':'' # JSON_stringify (snd kv)) fs)
              @ CHR ''}'' # r) = Some (fs, r)"
  using assms
proof (induction fs arbitrary: n)
  case Nil
  then show ?case by simp
next
  case (Cons f fs)
  note IH = Cons.IH and prems = Cons.prems
  obtain k v where f: "f = (k, v)" by (cases f)
  from prems(3) obtain m where n: "n = Suc m"
    and m: "size v < m" "size_list (size_prod (\<lambda>_. 0) size) fs < m"
    by (cases n) (auto simp: f)
  have q: "\<And>t. skip_ws (quote k @ t) = quote k @ t"
    by (simp add: quote_def skip_ws_start is_ws_def)
  have key: "\<And>t. parse_chars (concat (map escape_char k) @ CHR 0x22 # t) = Some (k, t)"
    by (rule parse_chars_quoted)
  show ?case
  proof (cases fs)
    case Nil
    have "parse_value m (JSON_stringify v @ CHR ''}'' # r) = Some (v, CHR ''}'' # r)"
      using prems(1) [of k v m "CHR ''}'' # r"] m f by simp
    then show ?thesis
      using Nil n f key by (simp add: quote_def skip_ws_start is_ws_def)
  next
    case (Cons g gs)
    let ?rest = "join_commas (map (\<lambda>kv. quote (fst kv) @ CHR '':'' # JSON_stringify (snd kv)) fs)
                   @ CHR ''}'' # r"
    have a: "parse_value m (JSON_stringify v @ CHR '','' # ?rest) = Some (v, CHR '','' # ?rest)"
      using prems(1) [of k v m "CHR '','' # ?rest"] m f by simp
    have b: "parse_members m ?rest = Some (fs, r)"
    proof (rule IH)
      fix k' v' n' r'
      assume "(k', v') \<in> set fs" "size v' < n'" "delimited r'"
      then show "parse_value n' (JSON_stringify v' @ r') = Some (v', r')"
        using prems(1) [of k' v' n' r'] by simp
    next
      show "fs \<noteq> []" using Cons by simp
    next
      show "size_list (size_prod (\<lambda>_. 0) size) fs < m" by (rule m(2))
    qed
    show ?thesis
      using a b Cons n f key by (simp add: quote_def skip_ws_start is_ws_def)
  qed
qed

lemma parse_value_stringify:
  "size v < n \<Longrightarrow> delimited r \<Longrightarrow> parse_value n (JSON_stringify v @ r) = Some (v, r)"
proof (induction v arbitrary: n r)
  case JNull
  then obtain m where "n = Suc m" by (cases n) auto
  then show ?case
    by (simp add: skip_ws_start is_ws_def)
next
  case (JBool b)
  then obtain m where "n = Suc m" by (cases n) auto
  then show ?case
    by (simp add: skip_ws_start is_ws_def)
next
  case (JNum i)
  then obtain m where "n = Suc m" by (cases n) auto
  with JNum show ?case
    using parse_value_number [of r m i] by (simp del: parse_value.simps)
next
  case (JStr s)
  then obtain m where "n = Suc m" by (cases n) auto
  then show ?case
    by (simp add: quote_def skip_ws_start is_ws_def parse_chars_quoted)
next
  case (JArr vs)
  from JArr.prems obtain m where n: "n = Suc m" and m: "size_list size vs < m"
    by (cases n) auto
  show ?case
  proof (cases vs)
    case Nil
    then show ?thesis
      using n by (simp add: skip_ws_start is_ws_def)
  next
    case (Cons x xs)
    let ?t = "join_commas (map JSON_stringify vs) @ CHR '']'' # r"
    obtain c cs where c: "JSON_stringify x = c # cs" "value_start c"
      using stringify_start by blast
    have "\<exists>t'. ?t = c # t'"
      using c(1) Cons by (cases xs) auto
    then obtain t' where t': "?t = c # t'" ..
    have ws: "skip_ws ?t = ?t" and hd: "hd ?t \<noteq> CHR '']''" and ne: "?t \<noteq> []"
      using t' c(2) by (auto simp: skip_ws_start value_start_not_ws value_start_not_close)
    have "parse_elems m ?t = Some (vs, r)"
      by (rule parse_elems_join) (use JArr.IH m Cons in auto)
    then show ?thesis
      using n ws hd ne by (simp add: skip_ws_start is_ws_def)
  qed
next
  case (JObj fs)
  from JObj.prems obtain m where n: "n = Suc m"
    and m: "size_list (size_prod (\<lambda>_. 0) size) fs < m"
    by (cases n) auto
  show ?case
  proof (cases fs)
    case Nil
    then show ?thesis
      using n by (simp add: skip_ws_start is_ws_def)
  next
    case (Cons f gs)
    let ?t = "join_commas (map (\<lambda>kv. quote (fst kv) @ CHR '':'' # JSON_stringify (snd kv)) fs)
                @ CHR ''}'' # r"
    have "\<exists>t'. ?t = CHR 0x22 # t'"
      using Cons by (cases gs) (auto simp: quote_def)
    then obtain t' where t': "?t = CHR 0x22 # t'" ..
    have ws: "skip_ws ?t = ?t" and hd: "hd ?t \<noteq> CHR ''}''" and ne: "?t \<noteq> []"
      using t' by (auto simp: skip_ws_start is_ws_def)
    have "parse_members m ?t = Some (fs, r)"
    proof (rule parse_members_join)
      fix k v n r
      assume "(k, v) \<in> set fs" "size v < n" "delimited r"
      then show "parse_value n (JSON_stringify v @ r) = Some (v, r)"
        using JObj.IH [of "(k, v)" v n r] by simp
    qed (use m Cons in auto)
    then show ?thesis
      using n ws hd ne by (simp add: skip_ws_start is_ws_def)
  qed
qed

lemma size_list_join:
  "(\<And>x. x \<in> set xs \<Longrightarrow> f x < length (g x))
     \<Longrightarrow> size_list f xs \<le> length (join_commas (map g xs))"
proof (induction xs)
  case Nil
  then show ?case by simp
next
  case (Cons x xs)
  note IH = Cons.IH and prems = Cons.prems
  have x: "f x < length (g x)" using prems by simp
  show ?case
  proof (cases xs)
    case Nil
    with x show ?thesis by simp
  next
    case (Cons y ys)
    have "size_list f xs \<le> length (join_commas (map g xs))"
      using IH prems by simp
    with x Cons show ?thesis by simp
  qed
qed

lemma size_less_length_stringify: "size v < length (JSON_stringify v)"
proof (induction v)
  case (JNum i)
  then show ?case
    using show_int_start [of i] by auto
next
  case (JArr vs)
  have "size_list size vs \<le> length (join_commas (map JSON_stringify vs))"
    by (rule size_list_join) (rule JArr.IH)
  then show ?case by simp
next
  case (JObj fs)
  have "size_list (size_prod (\<lambda>_. 0) size) fs
          \<le> length (join_commas (map (\<lambda>kv. quote (fst kv) @ CHR '':'' # JSON_stringify (snd kv)) fs))"
  proof (rule size_list_join)
    fix kv assume "kv \<in> set fs"
    moreover obtain k v where kv: "kv = (k, v)" by (cases kv)
    ultimately have "size (snd kv) < length (JSON_stringify (snd kv))"
      using JObj.IH [of kv v] by simp
    then show "size_prod (\<lambda>_. 0) size kv
                 < length (quote (fst kv) @ CHR '':'' # JSON_stringify (snd kv))"
      by (cases kv) simp
  qed
  then show ?case by simp
qed (simp_all add: quote_def)

lemma stringify_nonempty: "JSON_stringify v \<noteq> []"
  using size_less_length_stringify [of v] by auto

text \<open>Parsing the text of a value gives the value back, and the text is never empty (it
  is truthy).\<close>

lemma JSON_parse_stringify: "JSON_parse (JSON_stringify v) = Some v"
  using parse_value_stringify [of v "Suc (length (JSON_stringify v))" "[]"]
    size_less_length_stringify [of v]
  by (simp add: JSON_parse_def skip_ws_def del: parse_value.simps)

declare JSON_stringify.simps [simp del]

section \<open>Running a handler in a world\<close>

named_theorems io \<open>running a computation in a world\<close>

lemma return_apply [io]: "return x w = (Inr x, w)"
  by (simp add: return_def)

lemma throw_apply [io]: "throw e w = (Inl e, w)"
  by (simp add: throw_def)

lemma await_apply [io]:
  "await m k w = (case m w of (Inl e, w') \<Rightarrow> (Inl e, w') | (Inr x, w') \<Rightarrow> k x w')"
  by (simp add: await_def)

lemma try_catch_apply [io]:
  "try_catch m h w = (case m w of (Inl e, w') \<Rightarrow> h e w' | (Inr x, w') \<Rightarrow> (Inr x, w'))"
  by (simp add: try_catch_def)

lemma of_result_apply [io]:
  "of_result (Inr x) w = (Inr x, w)" "of_result (Inl e) w = (Inl e, w)"
  by (simp_all add: of_result_def return_def throw_def)

lemma console_log_apply [io]:
  "console_log l msg e w = (Inr (), w\<lparr>console := (l, msg, e) # console w\<rparr>)"
  by (simp add: console_log_def)

lemma failed_apply [io]:
  "failed tag msg e w = (Inr (json_response 500 (error_body msg)), w\<lparr>console := (Error, tag, e) # console w\<rparr>)"
  by (simp add: failed_def io)

lemma bucket_call_apply:
  "bucket_call f w =
     (if next_fault (faults w) then (Inl StorageError, w\<lparr>faults := tl (faults w)\<rparr>)
      else (case f (w\<lparr>faults := tl (faults w)\<rparr>) of (x, w') \<Rightarrow> (Inr x, w')))"
  by (simp add: bucket_call_def)

lemma getR2Object_apply:
  "getR2Object key w =
     (if next_fault (faults w)
      then (Inr None, w\<lparr>faults := tl (faults w),
              console := (Error, ''getR2Object error for key '' @ key @ '':'', StorageError) # console w\<rparr>)
      else (Inr (map_option bytes (map_of (objects w) key)), w\<lparr>faults := tl (faults w)\<rparr>))"
  by (simp add: getR2Object_def bucket_get_def bucket_call_apply io)

lemma no_fault_next [simp]: "True \<notin> set fs \<Longrightarrow> \<not> next_fault fs"
  by (cases fs) auto

lemma no_fault_tl [simp]: "True \<notin> set fs \<Longrightarrow> True \<notin> set (tl fs)"
  by (cases fs) auto

lemma bucket_put_apply:
  "bucket_put key obj w =
     (if next_fault (faults w) then (Inl StorageError, w\<lparr>faults := tl (faults w)\<rparr>)
      else (Inr (), w\<lparr>faults := tl (faults w), objects := AList.update key obj (objects w)\<rparr>))"
  by (simp add: bucket_put_def bucket_call_apply)

lemma bucket_get_apply:
  "bucket_get key w =
     (if next_fault (faults w) then (Inl StorageError, w\<lparr>faults := tl (faults w)\<rparr>)
      else (Inr (map_of (objects w) key), w\<lparr>faults := tl (faults w)\<rparr>))"
  by (simp add: bucket_get_def bucket_call_apply)

lemma bucket_delete_apply:
  "bucket_delete key w =
     (if next_fault (faults w) then (Inl StorageError, w\<lparr>faults := tl (faults w)\<rparr>)
      else (Inr (), w\<lparr>faults := tl (faults w), objects := AList.delete key (objects w)\<rparr>))"
  by (simp add: bucket_delete_def bucket_call_apply)

lemma bucket_list_apply:
  "bucket_list p w =
     (if next_fault (faults w) then (Inl StorageError, w\<lparr>faults := tl (faults w)\<rparr>)
      else (Inr (take 1000 (sort (remdups (filter (prefix p) (map fst (objects w)))))),
            w\<lparr>faults := tl (faults w)\<rparr>))"
  by (simp add: bucket_list_def bucket_call_apply)

lemma getR2Object_absent:
  assumes "map_of (objects w) key = None"
  shows "\<exists>w'. getR2Object key w = (Inr None, w') \<and> objects w' = objects w \<and> faults w' = tl (faults w)"
  using assms by (simp add: getR2Object_apply)

lemma getR2Object_world [simp]:
  "objects (snd (getR2Object key w)) = objects w"
  "faults (snd (getR2Object key w)) = tl (faults w)"
  by (simp_all add: getR2Object_apply)

text \<open>The first two steps of the handlers that read the collection.\<close>

lemma read_artists:
  assumes "stored_artists w = Some vs"
  shows "await (getR2Object ''data/artists.json'') (\<lambda>d. await (parse_or d (JArr [])) k) w
           = k (JArr (if next_fault (faults w) then [] else vs))
               (snd (getR2Object ''data/artists.json'' w))"
  using assms
  by (auto simp: io getR2Object_apply parse_or_def stored_artists_def
      split: option.splits if_splits json.splits)

lemma fault_at_2: "fault_at 2 fs = next_fault (tl (tl fs))"
  by (simp add: numeral_2_eq_2)

lemma stored_artists_written:
  assumes "map_of (objects w) ''data/artists.json''
             = Some \<lparr>bytes = JSON_stringify (JArr vs), contentType = ct\<rparr>"
  shows "stored_artists w = Some vs"
  using assms by (simp add: stored_artists_def stringify_nonempty JSON_parse_stringify)

text \<open>The example environment.\<close>

lemma example_stored:
  "stored_artists example_world = Some [JObj [(''id'', JStr ''a1''), (''name'', JStr ''Lee'')]]"
  by (simp add: stored_artists_def example_world_def stringify_nonempty JSON_parse_stringify,
      simp add: example_artists_def)

lemma example_reliable: "reliable example_world"
  by (simp add: reliable_def example_world_def)

section \<open>Properties of the router\<close>

subsection \<open>Matching one path segment\<close>

lemma first_some_all_None: "(\<And>x. x \<in> set xs \<Longrightarrow> f x = None) \<Longrightarrow> first_some (map f xs) = None"
  by (induction xs) auto

lemma rx_run_Seg_Eol:
  "rx_run [Seg, Eol] b s = (if s \<noteq> [] \<and> CHR ''/'' \<notin> set s then Some [s] else None)"
proof (cases "s \<noteq> [] \<and> CHR ''/'' \<notin> set s")
  case True
  then have tw: "takeWhile (\<lambda>c. c \<noteq> CHR ''/'') s = s"
    by auto
  from True obtain k where k: "length s = Suc k"
    by (cases s) auto
  define F where "F = (\<lambda>n. map_option (Cons (take n s)) (rx_run [Eol] False (drop n s)))"
  have r: "rev [1 ..< Suc (length s)] = length s # rev [1 ..< length s]"
    using k by simp
  have "rx_run [Seg, Eol] b s = first_some (map F (rev [1 ..< Suc (length s)]))"
    unfolding F_def by (simp only: rx_run.simps tw)
  also have "\<dots> = first_some (F (length s) # map F (rev [1 ..< length s]))"
    by (simp only: r list.map)
  also have "F (length s) = Some [s]"
    by (simp add: F_def)
  finally show ?thesis
    using True by simp
next
  case False
  show ?thesis
  proof (cases "s = []")
    case True
    then show ?thesis by simp
  next
    case ne: False
    with False have "CHR ''/'' \<in> set s" by simp
    then have "takeWhile (\<lambda>c. c \<noteq> CHR ''/'') s \<noteq> s"
      by auto
    then have "length (takeWhile (\<lambda>c. c \<noteq> CHR ''/'') s) \<noteq> length s"
      by (metis takeWhile_eq_take take_all order_refl)
    then have lt: "length (takeWhile (\<lambda>c. c \<noteq> CHR ''/'') s) < length s"
      using length_takeWhile_le [of "\<lambda>c. c \<noteq> CHR ''/''" s] by linarith
    have "first_some (map (\<lambda>n. map_option (Cons (take n s)) (rx_run [Eol] False (drop n s)))
            (rev [1 ..< Suc (length (takeWhile (\<lambda>c. c \<noteq> CHR ''/'') s))])) = None"
      by (rule first_some_all_None) (use lt in auto)
    with False show ?thesis by (simp del: upt_Suc rx_run.simps(3))
  qed
qed

lemma rx_run_Lits:
  "rx_run (map Lit l @ ts) b (l @ s) = rx_run ts (if l = [] then b else False) s"
  by (induction l arbitrary: b) auto

lemma rx_search_Bol_False: "rx_search (Bol # ts) False s = None"
  by (induction s) auto

lemma rx_search_Bol: "rx_search (Bol # ts) True s = rx_run ts True s"
  by (cases s) (auto simp: rx_search_Bol_False split: option.splits)

lemma path_match_one_segment:
  "path_match (Bol # map Lit l @ [Seg, Eol]) (l @ s)
     = (if s \<noteq> [] \<and> CHR ''/'' \<notin> set s then Some [s] else None)"
  unfolding path_match_def rx_search_Bol rx_run_Lits rx_run_Seg_Eol ..

lemma regex_delete_artist:
  "route_regex ''/api/artists/(.+)'' = Some (Bol # map Lit ''/api/artists/'' @ [Seg, Eol])"
  by code_simp

lemma regex_delete_photo:
  "route_regex ''/api/artists/(.+)/photos/(.+)'' = Some (Bol # map Lit ''/api/artists/'' @ [Seg, Eol])"
  by code_simp

lemma dispatch_delete_no_segment:
  assumes "path_match (Bol # map Lit ''/api/artists/'' @ [Seg, Eol]) P = None"
  shows "dispatch ''DELETE'' P (routes request) = return (json_response 404 (error_body ''Not Found''))"
  using assms unfolding routes_def
  by (simp add: regex_delete_artist regex_delete_photo)

text \<open>
  Claim C1 (the route of photo deletion). The claim has a DELETE request to
  \<^verbatim>\<open>/api/artists/{artistId}/photos/{photoId}\<close> reach the handler that deletes the photo.
  The router does not: the greedy \<^verbatim>\<open>\(.+\)\<close> of the replacement takes the two
  placeholders of that pattern, and all that stands between them, for one, so the
  expression of the entry is that of \<^verbatim>\<open>DELETE /api/artists/(.+)\<close>, a single segment.
  Every DELETE request whose path is \<^verbatim>\<open>/api/artists/\<close>, any text, \<^verbatim>\<open>/photos/\<close> and any
  text is answered 404 \<^verbatim>\<open>Not Found\<close>, and nothing in the environment changes.
\<close>

theorem delete_photo_route_not_found:
  assumes "http_method request = ''DELETE''"
    and "pathname request = ''/api/artists/'' @ a @ ''/photos/'' @ ph"
  shows "handleApiRequest request w = (Inr (json_response 404 (error_body ''Not Found'')), w)"
proof -
  have "path_match (Bol # map Lit ''/api/artists/'' @ [Seg, Eol]) (''/api/artists/'' @ a @ ''/photos/'' @ ph) = None"
    by (simp only: path_match_one_segment) simp
  then show ?thesis
    unfolding handleApiRequest_def assms
    by (simp only: dispatch_delete_no_segment) (simp add: return_def)
qed

text \<open>The request \<^verbatim>\<open>DELETE /api/artists/a1/photos/p1\<close>.\<close>

theorem delete_photo_route_not_found_witness:
  "handleApiRequest (example_request ''DELETE'' ''/api/artists/a1/photos/p1'') example_world
   = (Inr (json_response 404 (error_body ''Not Found'')), example_world)"
  using delete_photo_route_not_found
    [of "example_request ''DELETE'' ''/api/artists/a1/photos/p1''" "''a1''" "''p1''" example_world]
  by (simp add: example_request_def)

subsection \<open>The routes with at most one placeholder\<close>

text \<open>The entries with no placeholder or one are not touched by the greedy replacement:
  their expressions are those the table means, and a request for one of them reaches its
  handler, with the segment in the place of the placeholder as argument.\<close>

lemma rx_run_Lits_prefix:
  "rx_run (map Lit l @ ts) b p
     = (if prefix l p then rx_run ts (if l = [] then b else False) (drop (length l) p) else None)"
proof (induction l arbitrary: b p)
  case Nil
  then show ?case by simp
next
  case (Cons c l)
  then show ?case by (cases p) auto
qed

lemma rx_run_Lits_Eol: "rx_run (map Lit l @ [Eol]) b p = (if p = l then Some [] else None)"
proof (induction l arbitrary: b p)
  case Nil
  then show ?case by simp
next
  case (Cons c l)
  then show ?case by (cases p) auto
qed

lemma path_match_static:
  "path_match (Bol # map Lit l @ [Eol]) p = (if p = l then Some [] else None)"
  unfolding path_match_def rx_search_Bol rx_run_Lits_Eol ..

lemma rx_run_Seg_suffix:
  assumes "CHR ''/'' \<notin> set a"
  shows "rx_run (Seg # map Lit (CHR ''/'' # suf) @ [Eol]) b (a @ CHR ''/'' # t)
           = (if a \<noteq> [] \<and> t = suf then Some [a] else None)"
proof -
  let ?s = "a @ CHR ''/'' # t"
  define F where "F = (\<lambda>n. map_option (Cons (take n ?s))
                           (rx_run (map Lit (CHR ''/'' # suf) @ [Eol]) False (drop n ?s)))"
  have tw: "takeWhile (\<lambda>c. c \<noteq> CHR ''/'') ?s = a"
    using assms by (induction a) auto
  have run: "rx_run (Seg # map Lit (CHR ''/'' # suf) @ [Eol]) b ?s
               = first_some (map F (rev [1 ..< Suc (length a)]))"
    unfolding F_def by (simp only: rx_run.simps tw)
  have short: "F n = None" if "n < length a" for n
  proof -
    from that obtain c cs where d: "drop n a = c # cs"
      by (cases "drop n a") auto
    then have "c \<in> set a"
      by (metis in_set_dropD list.set_intros(1))
    with assms have "c \<noteq> CHR ''/''" by auto
    with d that show ?thesis
      unfolding F_def by simp
  qed
  show ?thesis
  proof (cases "a = []")
    case True
    with run show ?thesis by simp
  next
    case False
    then have r: "rev [1 ..< Suc (length a)] = length a # rev [1 ..< length a]"
      by (cases a) auto
    have full: "F (length a) = (if t = suf then Some [a] else None)"
      unfolding F_def rx_run_Lits_Eol by auto
    have rest: "first_some (map F (rev [1 ..< length a])) = None"
      by (rule first_some_all_None) (simp add: short)
    have "first_some (map F (rev [1 ..< Suc (length a)]))
            = first_some (F (length a) # map F (rev [1 ..< length a]))"
      by (simp only: r list.map)
    also have "\<dots> = (if t = suf then Some [a] else None)"
      using rest by (simp add: full)
    finally show ?thesis
      using False run by simp
  qed
qed

lemma path_match_segment_suffix:
  assumes "CHR ''/'' \<notin> set a"
  shows "path_match (Bol # map Lit l @ Seg # map Lit (CHR ''/'' # suf) @ [Eol]) (l @ a @ CHR ''/'' # t)
           = (if a \<noteq> [] \<and> t = suf then Some [a] else None)"
  unfolding path_match_def rx_search_Bol rx_run_Lits rx_run_Seg_suffix [OF assms] ..

lemma path_match_other_prefix:
  assumes "\<not> prefix l p"
  shows "path_match (Bol # map Lit l @ ts) p = None"
  unfolding path_match_def rx_search_Bol rx_run_Lits_prefix using assms by simp

text \<open>The expressions of the table.\<close>

lemma regex_artists: "route_regex ''/api/artists'' = Some (Bol # map Lit ''/api/artists'' @ [Eol])"
  by code_simp

lemma regex_photos:
  "route_regex ''/api/artists/(.+)/photos''
     = Some (Bol # map Lit ''/api/artists/'' @ Seg # map Lit ''/photos'' @ [Eol])"
  by code_simp

lemma regex_main_photo:
  "route_regex ''/api/artists/(.+)/main-photo''
     = Some (Bol # map Lit ''/api/artists/'' @ Seg # map Lit ''/main-photo'' @ [Eol])"
  by code_simp

lemma regex_filmography:
  "route_regex ''/api/artists/(.+)/filmography''
     = Some (Bol # map Lit ''/api/artists/'' @ Seg # map Lit ''/filmography'' @ [Eol])"
  by code_simp

lemma regex_export_artists:
  "route_regex ''/api/export/artists'' = Some (Bol # map Lit ''/api/export/artists'' @ [Eol])"
  by code_simp

lemma regex_export_filmography:
  "route_regex ''/api/export/filmography'' = Some (Bol # map Lit ''/api/export/filmography'' @ [Eol])"
  by code_simp

lemmas route_regexes = regex_artists regex_delete_artist regex_delete_photo regex_photos
  regex_main_photo regex_filmography regex_export_artists regex_export_filmography

text \<open>The loop over the table, method by method.\<close>

lemma dispatch_PUT:
  "dispatch ''PUT'' P (routes request) =
     (case path_match (Bol # map Lit ''/api/artists/'' @ [Seg, Eol]) P of
        Some params \<Rightarrow> updateArtist (arg params 0) request
      | None \<Rightarrow>
         (case path_match (Bol # map Lit ''/api/artists/'' @ Seg # map Lit ''/main-photo'' @ [Eol]) P of
            Some params \<Rightarrow> setMainPhoto (arg params 0) request
          | None \<Rightarrow>
             (case path_match (Bol # map Lit ''/api/artists/'' @ Seg # map Lit ''/filmography'' @ [Eol]) P of
                Some params \<Rightarrow> updateFilmography (arg params 0) request
              | None \<Rightarrow> return (json_response 404 (error_body ''Not Found'')))))"
  unfolding routes_def by (simp add: route_regexes cong: option.case_cong)

lemma dispatch_POST:
  "dispatch ''POST'' P (routes request) =
     (case path_match (Bol # map Lit ''/api/artists'' @ [Eol]) P of
        Some params \<Rightarrow> createArtist request
      | None \<Rightarrow>
         (case path_match (Bol # map Lit ''/api/artists/'' @ Seg # map Lit ''/photos'' @ [Eol]) P of
            Some params \<Rightarrow> uploadPhoto (arg params 0) request
          | None \<Rightarrow> return (json_response 404 (error_body ''Not Found''))))"
  unfolding routes_def by (simp add: route_regexes cong: option.case_cong)

lemma dispatch_DELETE:
  "dispatch ''DELETE'' P (routes request) =
     (case path_match (Bol # map Lit ''/api/artists/'' @ [Seg, Eol]) P of
        Some params \<Rightarrow> deleteArtist (arg params 0)
      | None \<Rightarrow> return (json_response 404 (error_body ''Not Found'')))"
  unfolding routes_def by (simp add: route_regexes cong: option.case_cong)

lemma dispatch_GET:
  "dispatch ''GET'' P (routes request) =
     (case path_match (Bol # map Lit ''/api/artists'' @ [Eol]) P of
        Some params \<Rightarrow> getArtists
      | None \<Rightarrow>
     (case path_match (Bol # map Lit ''/api/artists/'' @ [Seg, Eol]) P of
        Some params \<Rightarrow> getArtist (arg params 0)
      | None \<Rightarrow>
     (case path_match (Bol # map Lit ''/api/artists/'' @ Seg # map Lit ''/photos'' @ [Eol]) P of
        Some params \<Rightarrow> getArtistPhotos (arg params 0)
      | None \<Rightarrow>
     (case path_match (Bol # map Lit ''/api/artists/'' @ Seg # map Lit ''/filmography'' @ [Eol]) P of
        Some params \<Rightarrow> getFilmography (arg params 0)
      | None \<Rightarrow>
     (case path_match (Bol # map Lit ''/api/export/artists'' @ [Eol]) P of
        Some params \<Rightarrow> exportArtistsData
      | None \<Rightarrow>
     (case path_match (Bol # map Lit ''/api/export/filmography'' @ [Eol]) P of
        Some params \<Rightarrow> exportFilmographyData
      | None \<Rightarrow> return (json_response 404 (error_body ''Not Found''))))))))"
  unfolding routes_def by (simp add: route_regexes cong: option.case_cong)

text \<open>A path with one segment in the place of the placeholder reaches its handler.\<close>

lemma route_PUT_artist:
  assumes "http_method request = ''PUT''" and "pathname request = ''/api/artists/'' @ a"
    and "a \<noteq> []" and "CHR ''/'' \<notin> set a"
  shows "handleApiRequest request = updateArtist (Some a) request"
  unfolding handleApiRequest_def assms(1,2) dispatch_PUT path_match_one_segment
  using assms(3,4) by (simp add: arg_def)

lemma route_PUT_main_photo:
  assumes "http_method request = ''PUT''"
    and "pathname request = ''/api/artists/'' @ a @ ''/main-photo''"
    and "a \<noteq> []" and "CHR ''/'' \<notin> set a"
  shows "handleApiRequest request = setMainPhoto (Some a) request"
  unfolding handleApiRequest_def assms(1,2) dispatch_PUT path_match_one_segment
    path_match_segment_suffix [OF assms(4)]
  using assms(3) by (simp add: arg_def)

lemma route_PUT_filmography:
  assumes "http_method request = ''PUT''"
    and "pathname request = ''/api/artists/'' @ a @ ''/filmography''"
    and "a \<noteq> []" and "CHR ''/'' \<notin> set a"
  shows "handleApiRequest request = updateFilmography (Some a) request"
  unfolding handleApiRequest_def assms(1,2) dispatch_PUT path_match_one_segment
    path_match_segment_suffix [OF assms(4)]
  using assms(3) by (simp add: arg_def)

lemma route_DELETE_artist:
  assumes "http_method request = ''DELETE''" and "pathname request = ''/api/artists/'' @ a"
    and "a \<noteq> []" and "CHR ''/'' \<notin> set a"
  shows "handleApiRequest request = deleteArtist (Some a)"
  unfolding handleApiRequest_def assms(1,2) dispatch_DELETE path_match_one_segment
  using assms(3,4) by (simp add: arg_def)

lemma route_POST_artists:
  assumes "http_method request = ''POST''" and "pathname request = ''/api/artists''"
  shows "handleApiRequest request = createArtist request"
  unfolding handleApiRequest_def assms(1,2) dispatch_POST path_match_static
  by simp

lemma route_POST_photos:
  assumes "http_method request = ''POST''"
    and "pathname request = ''/api/artists/'' @ a @ ''/photos''"
    and "a \<noteq> []" and "CHR ''/'' \<notin> set a"
  shows "handleApiRequest request = uploadPhoto (Some a) request"
proof -
  have "pathname request \<noteq> ''/api/artists''"
    using assms(2) by simp
  then show ?thesis
    unfolding handleApiRequest_def assms(1) dispatch_POST path_match_static
    unfolding assms(2) path_match_segment_suffix [OF assms(4)]
    using assms(3) by (simp add: arg_def)
qed

lemma route_GET_filmography:
  assumes "http_method request = ''GET''"
    and "pathname request = ''/api/artists/'' @ a @ ''/filmography''"
    and "a \<noteq> []" and "CHR ''/'' \<notin> set a"
  shows "handleApiRequest request = getFilmography (Some a)"
proof -
  have "pathname request \<noteq> ''/api/artists''"
    using assms(2) by simp
  then show ?thesis
    unfolding handleApiRequest_def assms(1) dispatch_GET path_match_static
    unfolding assms(2) path_match_one_segment path_match_segment_suffix [OF assms(4)]
    using assms(3) by (simp add: arg_def)
qed

lemma route_GET_artists:
  assumes "http_method request = ''GET''" and "pathname request = ''/api/artists''"
  shows "handleApiRequest request = getArtists"
  unfolding handleApiRequest_def assms(1,2) dispatch_GET path_match_static
  by simp

lemma route_GET_artist:
  assumes "http_method request = ''GET''" and "pathname request = ''/api/artists/'' @ a"
    and "a \<noteq> []" and "CHR ''/'' \<notin> set a"
  shows "handleApiRequest request = getArtist (Some a)"
proof -
  have "pathname request \<noteq> ''/api/artists''"
    using assms(2) by simp
  then show ?thesis
    unfolding handleApiRequest_def assms(1) dispatch_GET path_match_static
    unfolding assms(2) path_match_one_segment
    using assms(3,4) by (simp add: arg_def)
qed

lemma route_GET_photos:
  assumes "http_method request = ''GET''"
    and "pathname request = ''/api/artists/'' @ a @ ''/photos''"
    and "a \<noteq> []" and "CHR ''/'' \<notin> set a"
  shows "handleApiRequest request = getArtistPhotos (Some a)"
proof -
  have "pathname request \<noteq> ''/api/artists''"
    using assms(2) by simp
  then show ?thesis
    unfolding handleApiRequest_def assms(1) dispatch_GET path_match_static
    unfolding assms(2) path_match_one_segment path_match_segment_suffix [OF assms(4)]
    using assms(3) by (simp add: arg_def)
qed

lemma path_match_export:
  assumes "p = ''/api/export/artists'' \<or> p = ''/api/export/filmography''"
  shows "path_match (Bol # map Lit ''/api/artists/'' @ ts) p = None"
  by (rule path_match_other_prefix) (use assms in auto)

lemma route_GET_export_artists:
  assumes "http_method request = ''GET''" and "pathname request = ''/api/export/artists''"
  shows "handleApiRequest request = exportArtistsData"
  unfolding handleApiRequest_def assms(1) dispatch_GET path_match_static
    path_match_export [OF disjI1, OF assms(2)]
  using assms(2) by simp

lemma route_GET_export_filmography:
  assumes "http_method request = ''GET''" and "pathname request = ''/api/export/filmography''"
  shows "handleApiRequest request = exportFilmographyData"
  unfolding handleApiRequest_def assms(1) dispatch_GET path_match_static
    path_match_export [OF disjI2, OF assms(2)]
  using assms(2) by simp

section \<open>Properties of the handlers\<close>

subsection \<open>Updating an artist that is not there\<close>

lemma findIndex_id_absent:
  "\<forall>a\<in>set vs. is_record a \<and> \<not> has_id artistId a \<Longrightarrow> findIndex_id vs (Some artistId) = Inr None"
proof (induction vs)
  case Nil
  then show ?case by simp
next
  case (Cons a vs)
  then obtain fs where "a = JObj fs" by (cases a) auto
  with Cons show ?case
    by (simp add: has_id_def strict_eq_def)
qed

text \<open>
  Claim C2. When the request carries a JSON body, the stored collection is an array of
  records and none of them has the given id, \<open>updateArtist\<close> answers 404
  \<^verbatim>\<open>Artist not found\<close>. The objects of the bucket are the same afterwards, and the one
  call of the bucket that was made is the read of the collection (one entry of \<open>faults\<close>
  is used up): nothing is written. This holds whether or not that read fails.
\<close>

theorem updateArtist_not_found:
  assumes "json_body request = Some updateData"
    and "stored_artists w = Some vs"
    and "\<forall>a\<in>set vs. is_record a \<and> \<not> has_id artistId a"
  shows "\<exists>w'. updateArtist (Some artistId) request w
                 = (Inr (json_response 404 (error_body ''Artist not found'')), w')
           \<and> objects w' = objects w \<and> faults w' = tl (faults w)"
proof -
  have none: "findIndex_id vs (Some artistId) = Inr None"
    using assms(3) by (rule findIndex_id_absent)
  show ?thesis
    unfolding updateArtist_def
    using assms(1,2) none
    by (auto simp: io request_json_def getR2Object_apply parse_or_def as_array_def stored_artists_def
        split: option.splits if_splits json.splits)
qed

theorem updateArtist_not_found_witness:
  "\<exists>w'. updateArtist (Some ''zz'')
           (example_json_request ''PUT'' ''/api/artists/zz'' (JObj [(''name'', JStr ''Kim'')]))
           example_world
         = (Inr (json_response 404 (error_body ''Artist not found'')), w')
      \<and> objects w' = objects example_world \<and> faults w' = tl (faults example_world)"
  using updateArtist_not_found
    [of "example_json_request ''PUT'' ''/api/artists/zz'' (JObj [(''name'', JStr ''Kim'')])"
        "JObj [(''name'', JStr ''Kim'')]" example_world
        "[JObj [(''id'', JStr ''a1''), (''name'', JStr ''Lee'')]]" "''zz''"]
  by (simp add: example_stored example_json_request_def has_id_def)

subsection \<open>Filmography\<close>



text \<open>
  Claim C7. When the bucket holds no filmography document for the artist,
  \<open>getFilmography\<close> answers 200 with the empty filmography, three empty lists under
  \<^verbatim>\<open>dramas\<close>, \<^verbatim>\<open>movies\<close> and \<^verbatim>\<open>commercials\<close>, and leaves the objects as they are.
\<close>

theorem getFilmography_absent:
  assumes "map_of (objects w) (''data/filmography/'' @ artistId @ ''.json'') = None"
  shows "\<exists>w'. getFilmography (Some artistId) w = (Inr (json_response 200 empty_filmography), w')
           \<and> objects w' = objects w"
proof -
  obtain w' where g: "getR2Object (''data/filmography/'' @ artistId @ ''.json'') w = (Inr None, w')"
    and o: "objects w' = objects w"
    using getR2Object_absent [OF assms] by blast
  have "getFilmography (Some artistId) w = (Inr (json_response 200 empty_filmography), w')"
    unfolding getFilmography_def
    using g by (simp add: text_of_def io parse_or_def)
  with o show ?thesis by blast
qed

theorem getFilmography_absent_witness:
  "\<exists>w'. getFilmography (Some ''a1'') example_world
           = (Inr (json_response 200
                (JObj [(''dramas'', JArr []), (''movies'', JArr []), (''commercials'', JArr [])])), w')
      \<and> objects w' = objects example_world"
  using getFilmography_absent [of example_world "''a1''"]
  by (simp add: example_world_def empty_filmography_def)

subsection \<open>Uploading without a file\<close>

text \<open>
  Claim C6. When the form of the request has no entry \<^verbatim>\<open>photo\<close>, \<open>uploadPhoto\<close>
  answers 400 \<^verbatim>\<open>No photo provided\<close> and the world is the one it started in: no call of
  the bucket, no id drawn.
\<close>

theorem uploadPhoto_no_file:
  assumes "form_data request = Some fd" and "map_of fd ''photo'' = None"
  shows "uploadPhoto artistId request w = (Inr (json_response 400 (error_body ''No photo provided'')), w)"
  using assms
  by (simp add: uploadPhoto_def request_formData_def no_photo_def io)

theorem uploadPhoto_no_file_witness:
  "uploadPhoto (Some ''a1'')
     (example_form_request ''POST'' ''/api/artists/a1/photos'' [(''caption'', FormString ''hello'')])
     example_world
   = (Inr (json_response 400 (error_body ''No photo provided'')), example_world)"
  using uploadPhoto_no_file
    [of "example_form_request ''POST'' ''/api/artists/a1/photos'' [(''caption'', FormString ''hello'')]"
        "[(''caption'', FormString ''hello'')]" "Some ''a1''" example_world]
  by (simp add: example_form_request_def)

subsection \<open>The key of an uploaded photo\<close>

lemma split_on_no_sep: "d \<notin> set s \<Longrightarrow> split_on d s = [s]"
  by (induction s) auto

lemma split_on_nonempty: "split_on d s \<noteq> []"
  by (induction s) (auto split: list.splits)

lemma split_on_append:
  "\<exists>pre. pre \<noteq> [] \<and> split_on d (base @ d # ext) = pre @ split_on d ext"
proof (induction base)
  case Nil
  have "split_on d ([] @ d # ext) = [[]] @ split_on d ext" by simp
  then show ?case by blast
next
  case (Cons a base)
  then obtain x xs where pre: "split_on d (base @ d # ext) = (x # xs) @ split_on d ext"
    by (metis neq_Nil_conv)
  show ?case
  proof (cases "a = d")
    case True
    with pre have "split_on d ((a # base) @ d # ext) = ([] # x # xs) @ split_on d ext"
      by simp
    then show ?thesis by blast
  next
    case False
    with pre have "split_on d ((a # base) @ d # ext) = ((a # x) # xs) @ split_on d ext"
      by simp
    then show ?thesis by blast
  qed
qed

lemma last_split_on_append:
  "d \<notin> set ext \<Longrightarrow> last (split_on d (base @ d # ext)) = ext"
  using split_on_append [of d base ext] by (auto simp: split_on_no_sep)

lemma fileExtension_no_dot:
  "CHR ''.'' \<notin> set name \<Longrightarrow> name \<noteq> [] \<Longrightarrow> fileExtension name = name"
  by (simp add: fileExtension_def pop_def split_on_no_sep)

lemma fileExtension_dot:
  "CHR ''.'' \<notin> set ext \<Longrightarrow> ext \<noteq> [] \<Longrightarrow> fileExtension (base @ CHR ''.'' # ext) = ext"
  by (simp add: fileExtension_def pop_def split_on_nonempty last_split_on_append)

lemma generateId_apply:
  "generateId w = (Inr (toString36 (fst (dates w (ticks w))) @ randoms w (draws w)),
                   w\<lparr>ticks := Suc (ticks w), draws := Suc (draws w)\<rparr>)"
  by (simp add: generateId_def io Date_now_def Math_random_def)

lemma fileExtension_empty: "fileExtension [] = ''jpg''"
  by (simp add: fileExtension_def pop_def)

lemma fileExtension_trailing_dot: "fileExtension (base @ ''.'') = ''jpg''"
  using last_split_on_append [of "CHR ''.''" "[]" base]
  by (simp add: fileExtension_def pop_def split_on_nonempty)

lemma uploadPhoto_stored_key:
  assumes "form_data request = Some fd" and "map_of fd ''photo'' = Some (FormFile f)"
    and "reliable w"
  shows "\<exists>w'. uploadPhoto (Some artistId) request w
            = (Inr (json_response 200
                 (JObj [(''success'', JBool True),
                        (''photoId'', JStr (toString36 (fst (dates w (ticks w))) @ randoms w (draws w))),
                        (''url'', JStr (getR2ObjectUrl
                           (''artists/'' @ artistId @ ''/photos/''
                              @ toString36 (fst (dates w (ticks w))) @ randoms w (draws w)
                              @ ''.'' @ fileExtension (file_name f))))])), w')
          \<and> map_of (objects w')
                (''artists/'' @ artistId @ ''/photos/''
                   @ toString36 (fst (dates w (ticks w))) @ randoms w (draws w)
                   @ ''.'' @ fileExtension (file_name f))
              = Some \<lparr>bytes = file_stream f, contentType = Some (file_type f)\<rparr>
          \<and> (CHR ''.'' \<notin> set (file_name f) \<and> file_name f \<noteq> []
                \<longrightarrow> fileExtension (file_name f) = file_name f)"
proof -
  have nf: "True \<notin> set (faults w)"
    using assms(3) by (simp add: reliable_def)
  show ?thesis
    unfolding uploadPhoto_def
    using assms(1,2) nf
    by (simp add: io request_formData_def no_photo_def generateId_apply bucket_put_apply
        text_of_def update_conv' fileExtension_no_dot Let_def)
qed

text \<open>
  Claim C5 (the extension of the stored key). The claim has a file whose name has no
  extension stored under a key that ends in the default extension \<^verbatim>\<open>jpg\<close>. The code
  takes \<^verbatim>\<open>photo.name.split('.').pop() || 'jpg'\<close>, and for a name without a dot the
  split has one part, the name itself: when no bucket call fails, such a file is
  stored under \<^verbatim>\<open>artists/{artistId}/photos/{photoId}.{name}\<close>, and the answer carries the
  generated id and the URL of that key. The default is taken only for an empty name and
  for a name that ends in a dot (\<open>fileExtension_empty\<close>, \<open>fileExtension_trailing_dot\<close>);
  a name with an extension keeps it (\<open>fileExtension_dot\<close>).
\<close>

theorem uploadPhoto_no_extension:
  assumes "form_data request = Some fd" and "map_of fd ''photo'' = Some (FormFile f)"
    and "reliable w" and "CHR ''.'' \<notin> set (file_name f)" and "file_name f \<noteq> []"
  shows "\<exists>photoId w'. uploadPhoto (Some artistId) request w
            = (Inr (json_response 200
                 (JObj [(''success'', JBool True), (''photoId'', JStr photoId),
                        (''url'', JStr (getR2ObjectUrl
                           (''artists/'' @ artistId @ ''/photos/'' @ photoId @ ''.'' @ file_name f)))])),
               w')
          \<and> map_of (objects w') (''artists/'' @ artistId @ ''/photos/'' @ photoId @ ''.'' @ file_name f)
              = Some \<lparr>bytes = file_stream f, contentType = Some (file_type f)\<rparr>"
proof -
  let ?id = "toString36 (fst (dates w (ticks w))) @ randoms w (draws w)"
  have e: "fileExtension (file_name f) = file_name f"
    using assms(4,5) by (simp add: fileExtension_no_dot)
  show ?thesis
    using uploadPhoto_stored_key [OF assms(1,2,3), of artistId]
    by (intro exI [of _ ?id]) (simp add: e)
qed

text \<open>A file named \<^verbatim>\<open>portrait\<close> is stored under a key that ends in \<^verbatim>\<open>.portrait\<close>.\<close>

theorem uploadPhoto_no_extension_witness:
  "\<exists>photoId w'. uploadPhoto (Some ''a1'')
        (example_form_request ''POST'' ''/api/artists/a1/photos''
           [(''photo'', FormFile \<lparr>file_name = ''portrait'', file_type = ''image/png'',
                                  file_stream = ''PNG''\<rparr>)])
        example_world
      = (Inr (json_response 200
           (JObj [(''success'', JBool True), (''photoId'', JStr photoId),
                  (''url'', JStr (getR2ObjectUrl (''artists/a1/photos/'' @ photoId @ ''.portrait'')))])),
         w')
    \<and> map_of (objects w') (''artists/a1/photos/'' @ photoId @ ''.portrait'')
        = Some \<lparr>bytes = ''PNG'', contentType = Some ''image/png''\<rparr>"
  using uploadPhoto_no_extension
    [of "example_form_request ''POST'' ''/api/artists/a1/photos''
           [(''photo'', FormFile \<lparr>file_name = ''portrait'', file_type = ''image/png'',
                                  file_stream = ''PNG''\<rparr>)]"
        "[(''photo'', FormFile \<lparr>file_name = ''portrait'', file_type = ''image/png'',
                               file_stream = ''PNG''\<rparr>)]"
        "\<lparr>file_name = ''portrait'', file_type = ''image/png'', file_stream = ''PNG''\<rparr>"
        example_world "''a1''"]
  by (simp add: example_form_request_def example_reliable)

subsection \<open>Creating an artist\<close>

lemma getMainPhotoUrl_apply:
  "getMainPhotoUrl x w =
     (if next_fault (faults w)
      then (Inr None, w\<lparr>faults := tl (faults w),
              console := (Error, ''getMainPhotoUrl error:'', StorageError) # console w\<rparr>)
      else (Inr (case map_of (objects w) (''artists/'' @ template x @ ''/main.jpg'') of
                   None \<Rightarrow> None
                 | Some _ \<Rightarrow> Some (getR2ObjectUrl (''artists/'' @ template x @ ''/main.jpg''))),
            w\<lparr>faults := tl (faults w)\<rparr>))"
  by (simp add: getMainPhotoUrl_def io bucket_get_apply Let_def split: option.splits)

lemma getR2ObjectUrl_nonempty: "getR2ObjectUrl key \<noteq> []"
  by (simp add: getR2ObjectUrl_def)

lemma attach_main_photos_apply:
  "True \<notin> set (faults w) \<Longrightarrow> \<forall>a\<in>set vs. is_record a \<Longrightarrow>
     attach_main_photos vs w
       = (Inr (map (with_main_photo (objects w)) vs), w\<lparr>faults := drop (length vs) (faults w)\<rparr>)"
proof (induction vs arbitrary: w)
  case Nil
  then show ?case by (simp add: io)
next
  case (Cons a vs)
  then obtain fs where a: "a = JObj fs" by (cases a) auto
  have IH: "attach_main_photos vs (w\<lparr>faults := tl (faults w)\<rparr>)
              = (Inr (map (with_main_photo (objects w)) vs),
                 w\<lparr>faults := drop (length vs) (tl (faults w))\<rparr>)"
    using Cons.IH [of "w\<lparr>faults := tl (faults w)\<rparr>"] Cons.prems by simp
  show ?case
    using Cons.prems(1) IH
    by (simp add: a io getMainPhotoUrl_apply with_main_photo_def getR2ObjectUrl_nonempty
        drop_Suc Let_def split: option.splits)
qed

lemma getArtists_apply:
  assumes "True \<notin> set (faults w)" and "stored_artists w = Some vs"
    and "\<forall>a\<in>set vs. is_record a"
  shows "getArtists w
           = (Inr (json_response 200 (JArr (map (with_main_photo (objects w)) vs))),
              (snd (getR2Object ''data/artists.json'' w))
                \<lparr>faults := drop (length vs) (tl (faults w))\<rparr>)"
proof -
  let ?w1 = "snd (getR2Object ''data/artists.json'' w)"
  have "attach_main_photos vs ?w1
          = (Inr (map (with_main_photo (objects ?w1)) vs), ?w1\<lparr>faults := drop (length vs) (faults ?w1)\<rparr>)"
    by (rule attach_main_photos_apply) (use assms in simp_all)
  then show ?thesis
    unfolding getArtists_def try_catch_apply read_artists [OF assms(2)]
    using assms(1) by (simp add: io)
qed

lemma stored_artists_frame [simp]:
  "stored_artists (w\<lparr>ticks := t\<rparr>) = stored_artists w"
  "stored_artists (w\<lparr>draws := d\<rparr>) = stored_artists w"
  "stored_artists (w\<lparr>faults := fs\<rparr>) = stored_artists w"
  "stored_artists (w\<lparr>console := c\<rparr>) = stored_artists w"
  by (simp_all add: stored_artists_def)

lemma no_fault_drop [simp]: "True \<notin> set fs \<Longrightarrow> True \<notin> set (drop n fs)"
  by (auto dest: in_set_dropD)

lemma put_filmography_fst:
  assumes "True \<notin> set (faults w)" and "data \<noteq> JNull"
  shows "fst (put_filmography_if_given artistId data w) = Inr ()"
proof -
  obtain x where "get_prop data ''filmography'' = Inr x"
    using assms(2) by (cases data) auto
  then show ?thesis
    using assms(1)
    by (simp add: put_filmography_if_given_def io putR2Object_def bucket_put_apply
        split: option.splits)
qed

lemma put_filmography_objects:
  assumes "k \<noteq> ''data/filmography/'' @ artistId @ ''.json''"
  shows "map_of (objects (snd (put_filmography_if_given artistId data w))) k = map_of (objects w) k"
proof (cases "get_prop data ''filmography''")
  case (Inl e)
  then show ?thesis
    by (simp add: put_filmography_if_given_def io)
next
  case (Inr x)
  then show ?thesis
    using assms
    by (simp add: put_filmography_if_given_def io putR2Object_def bucket_put_apply update_conv'
        split: option.splits)
qed

lemma put_filmography_case:
  assumes "True \<notin> set (faults w)" and "data \<noteq> JNull"
  shows "(case put_filmography_if_given artistId data w of
            (Inl e, w') \<Rightarrow> A e w' | (Inr y, w') \<Rightarrow> B y w')
           = B () (snd (put_filmography_if_given artistId data w))"
  using put_filmography_fst [OF assms, of artistId]
  by (cases "put_filmography_if_given artistId data w") (auto split: sum.splits)

lemma new_Date_apply:
  "new_Date_toISOString w = (Inr (snd (dates w (ticks w))), w\<lparr>ticks := Suc (ticks w)\<rparr>)"
  by (simp add: new_Date_toISOString_def io Date_now_def)

lemma createArtist_stored:
  assumes "json_body request = Some data" and "get_prop data ''name'' = Inr name"
    and "reliable w" and "stored_artists w = Some vs" and "\<forall>a\<in>set vs. is_record a"
  shows "\<exists>w'. createArtist request w
            = (Inr (json_response 200
                 (JObj [(''success'', JBool True),
                        (''artistId'', JStr (toString36 (fst (dates w (ticks w))) @ randoms w (draws w)))])),
               w')
          \<and> stored_artists w'
              = Some (map (with_main_photo (objects w)) vs
                      @ [newArtist (toString36 (fst (dates w (ticks w))) @ randoms w (draws w)) name
                           (snd (dates w (Suc (ticks w)))) (snd (dates w (Suc (Suc (ticks w)))))])"
proof -
  let ?id = "toString36 (fst (dates w (ticks w))) @ randoms w (draws w)"
  let ?new = "newArtist ?id name (snd (dates w (Suc (ticks w)))) (snd (dates w (Suc (Suc (ticks w)))))"
  let ?all = "JArr (map (with_main_photo (objects w)) vs @ [?new])"
  let ?w0 = "w\<lparr>draws := Suc (draws w), ticks := Suc (Suc (Suc (ticks w)))\<rparr>"
  have nf: "True \<notin> set (faults w)"
    using assms(3) by (simp add: reliable_def)
  have nn: "data \<noteq> JNull"
    using assms(2) by auto
  have g: "getArtists ?w0
             = (Inr (json_response 200 (JArr (map (with_main_photo (objects ?w0)) vs))),
                (snd (getR2Object ''data/artists.json'' ?w0))
                  \<lparr>faults := drop (length vs) (tl (faults ?w0))\<rparr>)"
    by (rule getArtists_apply) (use nf assms(4,5) in simp_all)
  define w2 where "w2 = (snd (getR2Object ''data/artists.json'' ?w0))
      \<lparr>faults := tl (drop (length vs) (tl (faults w))),
        objects := AList.update ''data/artists.json''
                     \<lparr>bytes = JSON_stringify ?all, contentType = Some ''application/json''\<rparr>
                     (objects w)\<rparr>"
  have run: "createArtist request w
               = (Inr (json_response 200 (JObj [(''success'', JBool True), (''artistId'', JStr ?id)])),
                  snd (put_filmography_if_given ?id data w2))"
    unfolding createArtist_def
    using assms(1,2) nf nn g
    by (simp add: io request_json_def generateId_apply new_Date_apply response_json_def
        json_response_def JSON_parse_stringify push_def as_array_def putR2Object_def
        bucket_put_apply w2_def put_filmography_case)
  have "map_of (objects (snd (put_filmography_if_given ?id data w2))) ''data/artists.json''
          = map_of (objects w2) ''data/artists.json''"
    by (rule put_filmography_objects) simp
  also have "\<dots> = Some \<lparr>bytes = JSON_stringify ?all, contentType = Some ''application/json''\<rparr>"
    by (simp add: w2_def update_conv')
  finally have "stored_artists (snd (put_filmography_if_given ?id data w2))
                  = Some (map (with_main_photo (objects w)) vs @ [?new])"
    by (rule stored_artists_written)
  with run show ?thesis by blast
qed

lemma with_main_photo_fields:
  "k \<noteq> ''mainPhoto'' \<Longrightarrow> get_prop (with_main_photo objs a) k = get_prop a k"
  by (cases a) (simp_all add: with_main_photo_def set_field_def update_conv' Let_def split: option.splits)

lemma example_id: "toString36 1700000000000 = ''loyw3v28''"
  by (simp add: toString36.simps digit36_def)

lemma example_with_main_photo:
  "with_main_photo (objects example_world) (JObj [(''id'', JStr ''a1''), (''name'', JStr ''Lee'')])
     = JObj [(''id'', JStr ''a1''), (''name'', JStr ''Lee''),
             (''mainPhoto'', JStr ''https://your-r2-domain.com/artists/a1/main.jpg'')]"
  by (simp add: with_main_photo_def example_world_def template_def set_field_def getR2ObjectUrl_def)

text \<open>
  Claim C8, as amended. Let the body of the request be a JSON value other than
  \<^verbatim>\<open>null\<close> with \<open>name\<close> its field \<^verbatim>\<open>name\<close>, let no bucket call fail, and let the stored
  collection be an array of records. \<open>createArtist\<close> answers success with the generated
  id, and the collection it stores is the collection as the list handler returns it,
  followed by one new record with that id, the name and the two timestamps: the prior
  records stand in their order, each with the URL of its main photo under
  \<^verbatim>\<open>mainPhoto\<close> when the bucket holds a main photo for it, and with every other field as
  it was.
\<close>

theorem createArtist_appends:
  assumes "json_body request = Some data" and "get_prop data ''name'' = Inr name"
    and "reliable w" and "stored_artists w = Some vs" and "\<forall>a\<in>set vs. is_record a"
  shows "\<exists>w'. createArtist request w
            = (Inr (json_response 200
                 (JObj [(''success'', JBool True),
                        (''artistId'', JStr (toString36 (fst (dates w (ticks w))) @ randoms w (draws w)))])),
               w')
          \<and> stored_artists w'
              = Some (map (with_main_photo (objects w)) vs
                      @ [newArtist (toString36 (fst (dates w (ticks w))) @ randoms w (draws w)) name
                           (snd (dates w (Suc (ticks w)))) (snd (dates w (Suc (Suc (ticks w)))))])
          \<and> (\<forall>a\<in>set vs. \<forall>k. k \<noteq> ''mainPhoto''
                \<longrightarrow> get_prop (with_main_photo (objects w) a) k = get_prop a k)"
  using createArtist_stored [OF assms] by (simp add: with_main_photo_fields)

theorem createArtist_appends_witness:
  "\<exists>w'. createArtist (example_json_request ''POST'' ''/api/artists'' (JObj [(''name'', JStr ''Kim'')]))
          example_world
        = (Inr (json_response 200
             (JObj [(''success'', JBool True), (''artistId'', JStr ''loyw3v28k3x90'')])), w')
      \<and> stored_artists w'
          = Some [JObj [(''id'', JStr ''a1''), (''name'', JStr ''Lee''),
                        (''mainPhoto'', JStr ''https://your-r2-domain.com/artists/a1/main.jpg'')],
                  JObj [(''id'', JStr ''loyw3v28k3x90''), (''name'', JStr ''Kim''),
                        (''createdAt'', JStr ''2023-11-14T22:13:20.000Z''),
                        (''updatedAt'', JStr ''2023-11-14T22:13:20.000Z'')]]"
proof -
  have b: "json_body (example_json_request ''POST'' ''/api/artists'' (JObj [(''name'', JStr ''Kim'')]))
             = Some (JObj [(''name'', JStr ''Kim'')])"
    by (simp add: example_json_request_def)
  have n: "get_prop (JObj [(''name'', JStr ''Kim'')]) ''name'' = Inr (Some (JStr ''Kim''))"
    by simp
  have r: "\<forall>a\<in>set [JObj [(''id'', JStr ''a1''), (''name'', JStr ''Lee'')]]. is_record a"
    by simp
  have v: "dates example_world = (\<lambda>n. (1700000000000 + n, ''2023-11-14T22:13:20.000Z''))"
    "ticks example_world = 0" "draws example_world = 0"
    "randoms example_world = (\<lambda>n. ''k3x9'' @ digits_of n)"
    by (simp_all add: example_world_def)
  from createArtist_appends [OF b n example_reliable example_stored r]
  obtain w' where
    "createArtist (example_json_request ''POST'' ''/api/artists'' (JObj [(''name'', JStr ''Kim'')]))
       example_world
     = (Inr (json_response 200
          (JObj [(''success'', JBool True),
                 (''artistId'', JStr (toString36 (fst (dates example_world (ticks example_world)))
                                        @ randoms example_world (draws example_world)))])), w')"
    and "stored_artists w'
         = Some (map (with_main_photo (objects example_world))
                   [JObj [(''id'', JStr ''a1''), (''name'', JStr ''Lee'')]]
                 @ [newArtist (toString36 (fst (dates example_world (ticks example_world)))
                                 @ randoms example_world (draws example_world))
                      (Some (JStr ''Kim''))
                      (snd (dates example_world (Suc (ticks example_world))))
                      (snd (dates example_world (Suc (Suc (ticks example_world)))))])"
    by blast
  then show ?thesis
    by (intro exI [of _ w'])
       (simp add: example_with_main_photo v example_id digits_of_0 newArtist_def)
qed

text \<open>The claim as it was stated has the prior records preserved. In the example the
  artist has a main photo, and the record stored after the creation has a field more.\<close>

theorem createArtist_prior_records_counterexample:
  "stored_artists example_world = Some [JObj [(''id'', JStr ''a1''), (''name'', JStr ''Lee'')]]
   \<and> (\<exists>new. stored_artists
          (snd (createArtist
                  (example_json_request ''POST'' ''/api/artists'' (JObj [(''name'', JStr ''Kim'')]))
                  example_world))
        = Some [JObj [(''id'', JStr ''a1''), (''name'', JStr ''Lee''),
                      (''mainPhoto'', JStr ''https://your-r2-domain.com/artists/a1/main.jpg'')],
                new])"
proof -
  have b: "json_body (example_json_request ''POST'' ''/api/artists'' (JObj [(''name'', JStr ''Kim'')]))
             = Some (JObj [(''name'', JStr ''Kim'')])"
    by (simp add: example_json_request_def)
  have n: "get_prop (JObj [(''name'', JStr ''Kim'')]) ''name'' = Inr (Some (JStr ''Kim''))"
    by simp
  have r: "\<forall>a\<in>set [JObj [(''id'', JStr ''a1''), (''name'', JStr ''Lee'')]]. is_record a"
    by simp
  from createArtist_stored [OF b n example_reliable example_stored r]
  show ?thesis
    by (auto simp: example_with_main_photo example_stored)
qed
subsection \<open>Setting the main photo\<close>

lemma hd_in_keys:
  assumes "take 1000 (sort (remdups (filter P ks))) = k # rest"
  shows "k \<in> set ks" and "P k" and "k = hd (sort (remdups (filter P ks)))"
proof -
  have "k \<in> set (take 1000 (sort (remdups (filter P ks))))"
    using assms by simp
  then have "k \<in> set (sort (remdups (filter P ks)))"
    by (rule in_set_takeD)
  then show "k \<in> set ks" and "P k" by auto
  show "k = hd (sort (remdups (filter P ks)))"
    using assms by (cases "sort (remdups (filter P ks))") auto
qed

lemma sort_Nil_iff: "sort xs = [] \<longleftrightarrow> xs = []"
  by (metis length_0_conv length_sort)

lemma keys_empty_iff:
  "take 1000 (sort (remdups (filter P ks))) = [] \<longleftrightarrow> \<not> (\<exists>k\<in>set ks. P k)"
  by (simp add: sort_Nil_iff filter_empty_conv)

lemma map_of_key_present: "k \<in> set (map fst al) \<Longrightarrow> \<exists>v. map_of al k = Some v"
  by (induction al) auto

lemma r2object_eta: "\<lparr>bytes = bytes src, contentType = contentType src\<rparr> = src"
  by (cases src) simp

lemma json_response_status [simp]: "status (json_response st v) = st"
  by (simp add: json_response_def)

text \<open>
  Claim C9. Let the body of the request be a JSON value other than \<^verbatim>\<open>null\<close>, with
  \<open>photoId\<close> its field \<^verbatim>\<open>photoId\<close>, and let no bucket call fail. \<open>setMainPhoto\<close> answers
  404 exactly when no key of the bucket starts with
  \<^verbatim>\<open>artists/{artistId}/photos/{photoId}\<close>. Otherwise it answers success, and the object
  under \<^verbatim>\<open>artists/{artistId}/main.jpg\<close> is afterwards the object (bytes and content
  type) of the first such key in the order of the listing; no other key changes.
\<close>

theorem setMainPhoto_result:
  assumes "json_body request = Some data" and "get_prop data ''photoId'' = Inr photoId"
    and "reliable w"
  shows "\<exists>r w'. setMainPhoto (Some artistId) request w = (Inr r, w')
           \<and> (status r = 404 \<longleftrightarrow>
                 \<not> (\<exists>k\<in>set (map fst (objects w)).
                       prefix (''artists/'' @ artistId @ ''/photos/'' @ template photoId) k))
           \<and> ((\<exists>k\<in>set (map fst (objects w)).
                   prefix (''artists/'' @ artistId @ ''/photos/'' @ template photoId) k)
                \<longrightarrow> r = json_response 200 success_body
                  \<and> map_of (objects w') (''artists/'' @ artistId @ ''/main.jpg'')
                      = map_of (objects w)
                          (hd (sort (remdups (filter
                             (prefix (''artists/'' @ artistId @ ''/photos/'' @ template photoId))
                             (map fst (objects w))))))
                  \<and> map_of (objects w') (''artists/'' @ artistId @ ''/main.jpg'') \<noteq> None
                  \<and> (\<forall>k. k \<noteq> ''artists/'' @ artistId @ ''/main.jpg''
                         \<longrightarrow> map_of (objects w') k = map_of (objects w) k))"
proof -
  let ?p = "''artists/'' @ artistId @ ''/photos/'' @ template photoId"
  let ?keys = "take 1000 (sort (remdups (filter (prefix ?p) (map fst (objects w)))))"
  have nf: "True \<notin> set (faults w)"
    using assms(3) by (simp add: reliable_def)
  show ?thesis
  proof (cases ?keys)
    case Nil
    then have none: "\<not> (\<exists>k\<in>set (map fst (objects w)). prefix ?p k)"
      using keys_empty_iff [of "prefix ?p" "map fst (objects w)"] by blast
    have "setMainPhoto (Some artistId) request w
            = (Inr (json_response 404 (error_body ''Photo not found'')), w\<lparr>faults := tl (faults w)\<rparr>)"
      unfolding setMainPhoto_def
      using assms(1,2) nf Nil
      by (simp add: io request_json_def bucket_list_apply text_of_def)
    with none show ?thesis
      by simp
  next
    case (Cons k rest)
    note k = hd_in_keys [OF Cons]
    obtain src where src: "map_of (objects w) k = Some src"
      using map_of_key_present [OF k(1)] by blast
    have some: "\<exists>k\<in>set (map fst (objects w)). prefix ?p k"
      using k(1,2) by blast
    have "setMainPhoto (Some artistId) request w
            = (Inr (json_response 200 success_body),
               w\<lparr>faults := tl (tl (tl (faults w))),
                 objects := AList.update (''artists/'' @ artistId @ ''/main.jpg'') src (objects w)\<rparr>)"
      unfolding setMainPhoto_def
      using assms(1,2) nf Cons src
      by (simp add: io request_json_def bucket_list_apply bucket_get_apply bucket_put_apply
          text_of_def r2object_eta)
    with some src k(3) show ?thesis
      by (simp add: update_conv')
  qed
qed

theorem setMainPhoto_result_witness:
  "\<exists>w'. setMainPhoto (Some ''a1'')
          (example_json_request ''PUT'' ''/api/artists/a1/main-photo'' (JObj [(''photoId'', JStr ''p1'')]))
          example_world
        = (Inr (json_response 200 success_body), w')
      \<and> map_of (objects w') ''artists/a1/main.jpg''
          = Some \<lparr>bytes = ''PNG'', contentType = Some ''image/png''\<rparr>"
proof -
  have b: "json_body (example_json_request ''PUT'' ''/api/artists/a1/main-photo''
             (JObj [(''photoId'', JStr ''p1'')])) = Some (JObj [(''photoId'', JStr ''p1'')])"
    by (simp add: example_json_request_def)
  have p: "get_prop (JObj [(''photoId'', JStr ''p1'')]) ''photoId'' = Inr (Some (JStr ''p1''))"
    by simp
  show ?thesis
    using setMainPhoto_result [OF b p example_reliable, of "''a1''"]
    by (auto simp: template_def example_world_def)
qed

subsection \<open>Deleting an artist\<close>

lemma filter_id_records:
  "\<forall>a\<in>set vs. is_record a \<Longrightarrow>
     filter_id vs (Some artistId) = Inr (filter (\<lambda>a. \<not> has_id artistId a) vs)"
proof (induction vs)
  case Nil
  then show ?case by simp
next
  case (Cons a vs)
  then obtain fs where "a = JObj fs" by (cases a) auto
  with Cons show ?case
    by (simp add: has_id_def strict_eq_def)
qed

lemma delete_photos_fst: "fst (delete_photos artistId w) = Inr ()"
  by (cases "await (bucket_list (''artists/'' @ text_of artistId @ ''/'')) delete_each w")
     (auto simp: delete_photos_def io split: sum.splits)

lemma delete_photos_case:
  "(case delete_photos artistId w of (Inl e, w') \<Rightarrow> A e w' | (Inr y, w') \<Rightarrow> B y w')
     = B () (snd (delete_photos artistId w))"
  using delete_photos_fst [of artistId w]
  by (cases "delete_photos artistId w") (auto split: sum.splits)

lemma delete_each_objects:
  "k \<notin> set keys \<Longrightarrow> map_of (objects (snd (delete_each keys w))) k = map_of (objects w) k"
proof (induction keys arbitrary: w)
  case Nil
  then show ?case by (simp add: io)
next
  case (Cons key keys)
  then show ?case
    by (simp add: io deleteR2Object_def bucket_delete_apply delete_conv')
qed

lemma delete_each_reliable:
  "True \<notin> set (faults w) \<Longrightarrow> True \<notin> set (faults (snd (delete_each keys w)))"
proof (induction keys arbitrary: w)
  case Nil
  then show ?case by (simp add: io)
next
  case (Cons key keys)
  then show ?case
    by (simp add: io deleteR2Object_def bucket_delete_apply)
qed

lemma delete_photos_objects:
  assumes "\<not> prefix (''artists/'' @ text_of artistId @ ''/'') k"
  shows "map_of (objects (snd (delete_photos artistId w))) k = map_of (objects w) k"
proof -
  let ?p = "''artists/'' @ text_of artistId @ ''/''"
  let ?keys = "take 1000 (sort (remdups (filter (prefix ?p) (map fst (objects w)))))"
  have "k \<notin> set ?keys"
    using assms by (auto dest: in_set_takeD)
  then have "map_of (objects (snd (delete_each ?keys (w\<lparr>faults := tl (faults w)\<rparr>)))) k
               = map_of (objects w) k"
    by (simp add: delete_each_objects)
  then show ?thesis
    by (cases "delete_each ?keys (w\<lparr>faults := tl (faults w)\<rparr>)")
       (auto simp: delete_photos_def io bucket_list_apply split: sum.splits)
qed

lemma delete_photos_reliable:
  assumes "True \<notin> set (faults w)"
  shows "True \<notin> set (faults (snd (delete_photos artistId w)))"
proof -
  let ?p = "''artists/'' @ text_of artistId @ ''/''"
  let ?keys = "take 1000 (sort (remdups (filter (prefix ?p) (map fst (objects w)))))"
  have "True \<notin> set (faults (snd (delete_each ?keys (w\<lparr>faults := tl (faults w)\<rparr>))))"
    using assms by (simp add: delete_each_reliable)
  then show ?thesis
    using assms
    by (cases "delete_each ?keys (w\<lparr>faults := tl (faults w)\<rparr>)")
       (auto simp: delete_photos_def io bucket_list_apply split: sum.splits)
qed

lemma delete_each_console: "console (snd (delete_each keys w)) = console w"
proof (induction keys arbitrary: w)
  case Nil
  then show ?case by (simp add: io)
next
  case (Cons key keys)
  then show ?case
    by (simp add: io deleteR2Object_def bucket_delete_apply)
qed

lemma delete_each_fst:
  "fst (delete_each keys w)
     = (if True \<in> set (take (length keys) (faults w)) then Inl StorageError else Inr ())"
proof (induction keys arbitrary: w)
  case Nil
  then show ?case by (simp add: io)
next
  case (Cons key keys)
  show ?case
  proof (cases "faults w")
    case Nil
    then show ?thesis
      using Cons.IH by (simp add: io deleteR2Object_def bucket_delete_apply)
  next
    case (Cons b bs)
    then show ?thesis
      using Cons.IH by (auto simp: io deleteR2Object_def bucket_delete_apply)
  qed
qed

lemma take_Suc_faults:
  "True \<in> set (take (Suc n) fs) \<longleftrightarrow> next_fault fs \<or> True \<in> set (take n (tl fs))"
  by (cases fs) auto

lemma delete_photos_console:
  "console (snd (delete_photos artistId w))
     = (if True \<in> set (take (Suc (length (take 1000 (sort (remdups (filter
                (prefix (''artists/'' @ text_of artistId @ ''/'')) (map fst (objects w)))))))) (faults w))
        then [(Warn, ''Photo deletion error:'', StorageError)] else [])
       @ console w"
proof -
  let ?keys = "take 1000 (sort (remdups (filter
                (prefix (''artists/'' @ text_of artistId @ ''/'')) (map fst (objects w)))))"
  let ?w1 = "w\<lparr>faults := tl (faults w)\<rparr>"
  have c: "console (snd (delete_each ?keys ?w1)) = console w"
    by (simp add: delete_each_console)
  have f: "fst (delete_each ?keys ?w1)
             = (if True \<in> set (take (length ?keys) (tl (faults w))) then Inl StorageError else Inr ())"
    by (simp add: delete_each_fst)
  show ?thesis
    unfolding take_Suc_faults
    using c f
    by (cases "delete_each ?keys ?w1")
       (auto simp: delete_photos_def io bucket_list_apply split: sum.splits if_splits)
qed

lemma keys_update_other:
  "\<not> prefix p k \<Longrightarrow>
     filter (prefix p) (map fst (AList.update k v al)) = filter (prefix p) (map fst al)"
  by (induction al) auto

lemma keys_delete_other:
  "\<not> prefix p k \<Longrightarrow>
     filter (prefix p) (map fst (AList.delete k al)) = filter (prefix p) (map fst al)"
  by (induction al) auto

lemma getR2Object_console:
  "console (snd (getR2Object key w))
     = (if next_fault (faults w)
        then [(Error, ''getR2Object error for key '' @ key @ '':'', StorageError)] else [])
       @ console w"
  by (simp add: getR2Object_apply)

lemma drop_3_faults: "drop 3 fs = tl (tl (tl fs))"
  by (simp add: drop_Suc numeral_3_eq_3 drop_tl)

lemma deleteArtist_cleanup:
  assumes "stored_artists w = Some vs" and "\<forall>a\<in>set vs. is_record a"
    and "\<not> fault_at 1 (faults w)"
  shows "(\<not> fault_at 2 (faults w) \<longrightarrow>
            (\<exists>w'. deleteArtist (Some artistId) w = (Inr (json_response 200 success_body), w')
                 \<and> console w'
                     = (if photo_call_fails artistId w
                        then [(Warn, ''Photo deletion error:'', StorageError)] else [])
                       @ (if fault_at 0 (faults w)
                          then [(Error, ''getR2Object error for key data/artists.json:'', StorageError)]
                          else [])
                       @ console w))
       \<and> (fault_at 2 (faults w) \<longrightarrow>
            (\<exists>w'. deleteArtist (Some artistId) w
                     = (Inr (json_response 500 (error_body ''Failed to delete artist'')), w')
                 \<and> map_of (objects w') ''data/artists.json''
                     = Some \<lparr>bytes = JSON_stringify
                                        (JArr (filter (\<lambda>a. \<not> has_id artistId a)
                                                 (if fault_at 0 (faults w) then [] else vs))),
                              contentType = Some ''application/json''\<rparr>))"
proof -
  let ?vs = "if next_fault (faults w) then [] else vs"
  have "\<forall>a\<in>set ?vs. is_record a"
    using assms(2) by simp
  then have f: "filter_id ?vs (Some artistId) = Inr (filter (\<lambda>a. \<not> has_id artistId a) ?vs)"
    by (rule filter_id_records)
  have nf: "\<not> next_fault (tl (faults w))"
    using assms(3) by simp
  show ?thesis
    unfolding deleteArtist_def try_catch_apply read_artists [OF assms(1)] fault_at_2
      photo_call_fails_def drop_3_faults
    using f nf
    by (simp add: io as_array_def putR2Object_def bucket_put_apply
        deleteR2Object_def bucket_delete_apply delete_photos_case update_conv' text_of_def
        delete_photos_console keys_update_other keys_delete_other
        getR2Object_console)
qed

lemma example_faulty_stored:
  "stored_artists (example_world\<lparr>faults := fs\<rparr>)
     = Some [JObj [(''id'', JStr ''a1''), (''name'', JStr ''Lee'')]]"
  using example_stored by (simp add: stored_artists_def)

lemma deleteArtist_reliable:
  assumes "reliable w" and "stored_artists w = Some vs" and "\<forall>a\<in>set vs. is_record a"
  shows "\<exists>w'. deleteArtist (Some artistId) w = (Inr (json_response 200 success_body), w')
           \<and> reliable w'
           \<and> map_of (objects w') ''data/artists.json''
               = Some \<lparr>bytes = JSON_stringify (JArr (filter (\<lambda>a. \<not> has_id artistId a) vs)),
                        contentType = Some ''application/json''\<rparr>"
proof -
  have nf: "True \<notin> set (faults w)"
    using assms(1) by (simp add: reliable_def)
  have f: "filter_id vs (Some artistId) = Inr (filter (\<lambda>a. \<not> has_id artistId a) vs)"
    using assms(3) by (rule filter_id_records)
  let ?doc = "\<lparr>bytes = JSON_stringify (JArr (filter (\<lambda>a. \<not> has_id artistId a) vs)),
               contentType = Some ''application/json''\<rparr>"
  define w3 where "w3 = (snd (getR2Object ''data/artists.json'' w))
      \<lparr>faults := tl (tl (tl (faults w))),
        objects := AList.delete (''data/filmography/'' @ artistId @ ''.json'')
                     (AList.update ''data/artists.json'' ?doc (objects w))\<rparr>"
  have run: "deleteArtist (Some artistId) w
               = (Inr (json_response 200 success_body), snd (delete_photos (Some artistId) w3))"
    unfolding deleteArtist_def try_catch_apply read_artists [OF assms(2)] w3_def
    using f nf
    by (simp add: io as_array_def putR2Object_def bucket_put_apply
        deleteR2Object_def bucket_delete_apply delete_photos_case text_of_def)
  have "True \<notin> set (faults w3)"
    using nf by (simp add: w3_def)
  then have rel: "reliable (snd (delete_photos (Some artistId) w3))"
    by (simp add: reliable_def delete_photos_reliable)
  have "map_of (objects (snd (delete_photos (Some artistId) w3))) ''data/artists.json''
          = map_of (objects w3) ''data/artists.json''"
    by (rule delete_photos_objects) simp
  also have "\<dots> = Some ?doc"
    by (simp add: w3_def delete_conv' update_conv')
  finally show ?thesis
    using run rel by blast
qed

lemma example_console: "console (example_world\<lparr>faults := fs\<rparr>) = []"
  by (simp add: example_world_def)

text \<open>
  Claim C4, as amended. Let the stored collection be an array of records and let the
  write of the filtered collection succeed (the second call of the bucket). When the
  deletion of the filmography document succeeds (the third call), \<open>deleteArtist\<close>
  answers 200 success whatever the later calls do. These are the calls of the inner
  \<^verbatim>\<open>try\<close>: the listing of the artist's objects and the deletion of each of them. When
  one of them throws, the listing or any of the deletions, the console has one entry
  more, the warning \<^verbatim>\<open>Photo deletion error:\<close> with the error; when none throws, nothing
  is logged by the clean-up. When the deletion of the filmography document throws, the
  error is not caught by the inner \<^verbatim>\<open>try\<close>: the answer is 500
  \<^verbatim>\<open>Failed to delete artist\<close>, and the filtered collection has been written.
\<close>

theorem deleteArtist_photo_errors_swallowed:
  assumes "stored_artists w = Some vs" and "\<forall>a\<in>set vs. is_record a"
    and "\<not> fault_at 1 (faults w)"
  shows "(\<not> fault_at 2 (faults w) \<longrightarrow>
            (\<exists>w'. deleteArtist (Some artistId) w = (Inr (json_response 200 success_body), w')
                 \<and> console w'
                     = (if photo_call_fails artistId w
                        then [(Warn, ''Photo deletion error:'', StorageError)] else [])
                       @ (if fault_at 0 (faults w)
                          then [(Error, ''getR2Object error for key data/artists.json:'', StorageError)]
                          else [])
                       @ console w))
       \<and> (fault_at 2 (faults w) \<longrightarrow>
            (\<exists>w'. deleteArtist (Some artistId) w
                     = (Inr (json_response 500 (error_body ''Failed to delete artist'')), w')
                 \<and> map_of (objects w') ''data/artists.json''
                     = Some \<lparr>bytes = JSON_stringify
                                        (JArr (filter (\<lambda>a. \<not> has_id artistId a)
                                                 (if fault_at 0 (faults w) then [] else vs))),
                              contentType = Some ''application/json''\<rparr>))"
  using assms by (rule deleteArtist_cleanup)

text \<open>The deletion of the first photo fails, after a listing that succeeded: the answer is
  success, with the warning.\<close>

theorem deleteArtist_photo_errors_swallowed_witness:
  "\<exists>w'. deleteArtist (Some ''a1'') (example_world\<lparr>faults := [False, False, False, False, True]\<rparr>)
          = (Inr (json_response 200 success_body), w')
      \<and> console w' = [(Warn, ''Photo deletion error:'', StorageError)]"
proof -
  have "photo_call_fails ''a1'' (example_world\<lparr>faults := [False, False, False, False, True]\<rparr>)"
    by (simp add: photo_call_fails_def drop_3_faults example_world_def)
  with deleteArtist_photo_errors_swallowed
    [of "example_world\<lparr>faults := [False, False, False, False, True]\<rparr>"
        "[JObj [(''id'', JStr ''a1''), (''name'', JStr ''Lee'')]]" "''a1''"]
  show ?thesis
    by (simp add: example_stored numeral_2_eq_2 example_console)
qed

text \<open>The claim as it was stated fails where the deletion of the filmography document
  throws: the collection without the artist has been written, and the answer is 500.\<close>

theorem deleteArtist_filmography_error_counterexample:
  "\<exists>w'. deleteArtist (Some ''a1'') (example_world\<lparr>faults := [False, False, True]\<rparr>)
          = (Inr (json_response 500 (error_body ''Failed to delete artist'')), w')
      \<and> map_of (objects w') ''data/artists.json''
          = Some \<lparr>bytes = JSON_stringify (JArr []), contentType = Some ''application/json''\<rparr>"
  using deleteArtist_cleanup
    [of "example_world\<lparr>faults := [False, False, True]\<rparr>"
        "[JObj [(''id'', JStr ''a1''), (''name'', JStr ''Lee'')]]" "''a1''"]
  by (auto simp: example_stored example_faulty_stored numeral_2_eq_2 has_id_def)

text \<open>
  Claim C10. In a world whose bucket calls do not fail and whose stored collection is an
  array of records, \<open>deleteArtist\<close> answers 200 success and the document
  \<^verbatim>\<open>data/artists.json\<close> then holds the text of the records read without those of the
  given id. A second deletion of the same id answers success too and leaves the document
  as the first deletion left it. When no record has the id, the document written is the
  text of the collection that was read, and that collection is what it parses to.
\<close>

theorem deleteArtist_absent_idempotent:
  assumes "reliable w" and "stored_artists w = Some vs" and "\<forall>a\<in>set vs. is_record a"
  shows "\<exists>w1 w2. deleteArtist (Some artistId) w = (Inr (json_response 200 success_body), w1)
           \<and> map_of (objects w1) ''data/artists.json''
               = Some \<lparr>bytes = JSON_stringify (JArr (filter (\<lambda>a. \<not> has_id artistId a) vs)),
                        contentType = Some ''application/json''\<rparr>
           \<and> deleteArtist (Some artistId) w1 = (Inr (json_response 200 success_body), w2)
           \<and> map_of (objects w2) ''data/artists.json'' = map_of (objects w1) ''data/artists.json''
           \<and> ((\<forall>a\<in>set vs. \<not> has_id artistId a) \<longrightarrow>
                  map_of (objects w1) ''data/artists.json''
                    = Some \<lparr>bytes = JSON_stringify (JArr vs), contentType = Some ''application/json''\<rparr>
                \<and> stored_artists w1 = Some vs)"
proof -
  let ?kept = "filter (\<lambda>a. \<not> has_id artistId a) vs"
  let ?doc = "\<lparr>bytes = JSON_stringify (JArr ?kept), contentType = Some ''application/json''\<rparr>"
  obtain w1 where 1: "deleteArtist (Some artistId) w = (Inr (json_response 200 success_body), w1)"
    and r1: "reliable w1" and d1: "map_of (objects w1) ''data/artists.json'' = Some ?doc"
    using deleteArtist_reliable [OF assms] by blast
  have s1: "stored_artists w1 = Some ?kept"
    using d1 by (rule stored_artists_written)
  have "\<forall>a\<in>set ?kept. is_record a"
    using assms(3) by simp
  from deleteArtist_reliable [OF r1 s1 this, of artistId]
  obtain w2 where 2: "deleteArtist (Some artistId) w1 = (Inr (json_response 200 success_body), w2)"
    and d2: "map_of (objects w2) ''data/artists.json''
               = Some \<lparr>bytes = JSON_stringify (JArr (filter (\<lambda>a. \<not> has_id artistId a) ?kept)),
                        contentType = Some ''application/json''\<rparr>"
    by blast
  have same: "filter (\<lambda>a. \<not> has_id artistId a) ?kept = ?kept"
    by simp
  have "(\<forall>a\<in>set vs. \<not> has_id artistId a) \<longrightarrow> ?kept = vs"
    by simp
  then show ?thesis
    using 1 2 d1 d2 s1 unfolding same by (intro exI [of _ w1] exI [of _ w2]) auto
qed

theorem deleteArtist_absent_idempotent_witness:
  "\<exists>w1 w2. deleteArtist (Some ''zz'') example_world = (Inr (json_response 200 success_body), w1)
      \<and> map_of (objects w1) ''data/artists.json''
          = Some \<lparr>bytes = JSON_stringify (JArr [JObj [(''id'', JStr ''a1''), (''name'', JStr ''Lee'')]]),
                   contentType = Some ''application/json''\<rparr>
      \<and> deleteArtist (Some ''zz'') w1 = (Inr (json_response 200 success_body), w2)
      \<and> map_of (objects w2) ''data/artists.json'' = map_of (objects w1) ''data/artists.json''
      \<and> stored_artists w1 = Some [JObj [(''id'', JStr ''a1''), (''name'', JStr ''Lee'')]]"
  using deleteArtist_absent_idempotent
    [of example_world "[JObj [(''id'', JStr ''a1''), (''name'', JStr ''Lee'')]]" "''zz''"]
  by (simp add: example_stored example_reliable has_id_def) blast

end
